theory Spec2Isabelle
  imports Complex_Main "HOL-Library.AList"
begin

section \<open>Errors raised by the Python code\<close>

text \<open>
  Every exception the modelled functions can raise is a value. \<open>DirectionMismatch i l0 li\<close>
  is the \<open>ValueError\<close> of \<open>_Lines._validate_lines\<close>; it carries what the message
  prints: the index \<open>i\<close>, \<open>lines[0]\<close> and \<open>lines[i]\<close>.
\<close>

datatype error =
    IndexError
  | KeyError string
  | ZeroDivisionError
  | TypeError
  | UnpackError
  | EmptyReduction
  | DirectionMismatch nat "real \<times> real" "real \<times> real"
  | NotImplementedError

section \<open>Coordinates, points and instruction programs\<close>

text \<open>
  A \<open>Coordinate\<close> is an axis-named mapping; Python dictionaries keep insertion order, so it
  is an association list. Floats are modelled as real numbers: rounding is not modelled.
\<close>

type_synonym Coordinate = "(string \<times> real) list"

definition dict_update :: "Coordinate \<Rightarrow> Coordinate \<Rightarrow> Coordinate" where
  "dict_update d u = foldl (\<lambda>acc kv. AList.update (fst kv) (snd kv) acc) d u"

datatype Point = Point2D real real | Point3D real real real

text \<open>
  Modelled from the spec: the module \<open>devices/coordinate_system\<close> (classes \<open>Point2D\<close>,
  \<open>Point3D\<close>) is missing. The spec gives vector addition, a 2D rotation about the origin
  that leaves z untouched, and the conversion to an axis-named mapping. Adding points of
  different dimension is taken to give a 3D point, a missing z counting as 0.
\<close>

fun point_add :: "Point \<Rightarrow> Point \<Rightarrow> Point" where
  "point_add (Point2D x y) (Point2D u v) = Point2D (x + u) (y + v)"
| "point_add (Point3D x y z) (Point3D u v w) = Point3D (x + u) (y + v) (z + w)"
| "point_add (Point3D x y z) (Point2D u v) = Point3D (x + u) (y + v) z"
| "point_add (Point2D x y) (Point3D u v w) = Point3D (x + u) (y + v) w"

fun rotate2D :: "real \<Rightarrow> Point \<Rightarrow> Point" where
  "rotate2D a (Point2D x y) = Point2D (x * cos a - y * sin a) (x * sin a + y * cos a)"
| "rotate2D a (Point3D x y z) = Point3D (x * cos a - y * sin a) (x * sin a + y * cos a) z"

fun as_dict :: "Point \<Rightarrow> Coordinate" where
  "as_dict (Point2D x y) = [(''X'', x), (''Y'', y)]"
| "as_dict (Point3D x y z) = [(''X'', x), (''Y'', y), (''Z'', z)]"

datatype GalvoLaserOverrideMode = ON | OFF

datatype Instruction =
    Move Coordinate "real option" "real option"
  | MovePositional "string list" "real option" "real option"
  | LaserGate GalvoLaserOverrideMode
  | Comment string

text \<open>
  Modelled from the spec: the class \<open>DrawableAeroBasicProgram\<close> is missing. The spec gives an
  append-only ordered sequence of instructions bound to one coordinate system, which is an
  opaque token; \<open>LINEAR\<close> appends a \<open>Move\<close> with its optional rates \<open>F\<close> and \<open>E\<close>,
  \<open>GALVO_LASER_OVERRIDE\<close> a \<open>LaserGate\<close>, \<open>comment\<close> a \<open>Comment\<close>, and
  \<open>add_programm\<close> concatenates, the receiver's coordinate system staying. A \<open>LINEAR\<close>
  called with positional arguments appends a \<open>MovePositional\<close> that carries them in the
  order given.
\<close>

record 'cs DrawableAeroBasicProgram =
  coordinate_system :: 'cs
  instructions :: "Instruction list"

definition new_program :: "'cs \<Rightarrow> 'cs DrawableAeroBasicProgram" where
  "new_program cs = \<lparr>coordinate_system = cs, instructions = []\<rparr>"

definition LINEAR ::
  "Coordinate \<Rightarrow> real option \<Rightarrow> real option \<Rightarrow> 'cs DrawableAeroBasicProgram
    \<Rightarrow> 'cs DrawableAeroBasicProgram" where
  "LINEAR c f e p = p\<lparr>instructions := instructions p @ [Move c f e]\<rparr>"

definition LINEAR_positional ::
  "string list \<Rightarrow> real option \<Rightarrow> real option \<Rightarrow> 'cs DrawableAeroBasicProgram
    \<Rightarrow> 'cs DrawableAeroBasicProgram" where
  "LINEAR_positional args f e p = p\<lparr>instructions := instructions p @ [MovePositional args f e]\<rparr>"

text \<open>
  \<open>program.LINEAR(**kwargs)\<close>: the entries \<open>F\<close> and \<open>E\<close> of the dictionary are the rates,
  every other entry is an axis.
\<close>

definition LINEAR_kwargs ::
  "Coordinate \<Rightarrow> 'cs DrawableAeroBasicProgram \<Rightarrow> 'cs DrawableAeroBasicProgram" where
  "LINEAR_kwargs kw p =
     LINEAR (filter (\<lambda>kv. fst kv \<noteq> ''F'' \<and> fst kv \<noteq> ''E'') kw)
       (map_of kw ''F'') (map_of kw ''E'') p"

definition GALVO_LASER_OVERRIDE ::
  "GalvoLaserOverrideMode \<Rightarrow> 'cs DrawableAeroBasicProgram \<Rightarrow> 'cs DrawableAeroBasicProgram" where
  "GALVO_LASER_OVERRIDE m p = p\<lparr>instructions := instructions p @ [LaserGate m]\<rparr>"

definition comment ::
  "string \<Rightarrow> 'cs DrawableAeroBasicProgram \<Rightarrow> 'cs DrawableAeroBasicProgram" where
  "comment t p = p\<lparr>instructions := instructions p @ [Comment t]\<rparr>"

definition add_programm ::
  "'cs DrawableAeroBasicProgram \<Rightarrow> 'cs DrawableAeroBasicProgram
    \<Rightarrow> 'cs DrawableAeroBasicProgram" where
  "add_programm other p = p\<lparr>instructions := instructions p @ instructions other\<rparr>"

section \<open>Monotone line sweeps: construction\<close>

datatype SingleAxis = X | Y

fun parameter_name :: "SingleAxis \<Rightarrow> string" where
  "parameter_name X = ''X''"
| "parameter_name Y = ''Y''"

text \<open>\<open>_Lines._direction\<close>: \<open>np.sign(line_segment[1] - line_segment[0])\<close>.\<close>

definition direction :: "real \<times> real \<Rightarrow> real" where
  "direction line_segment = sgn (snd line_segment - fst line_segment)"

text \<open>
  The loop of \<open>_Lines._validate_lines\<close> over \<open>enumerate(lines[1:], start=1)\<close>: \<open>d\<close> is the
  direction of line 0, \<open>l0\<close> is \<open>lines[0]\<close>, \<open>i\<close> the running index.
\<close>

fun validate_loop :: "real \<Rightarrow> real \<times> real \<Rightarrow> nat \<Rightarrow> (real \<times> real) list \<Rightarrow> error + unit" where
  "validate_loop d l0 i [] = Inr ()"
| "validate_loop d l0 i (line # rest) =
     (if \<not> direction line = d then Inl (DirectionMismatch i l0 line)
      else validate_loop d l0 (Suc i) rest)"

definition validate_lines :: "(real \<times> real) list \<Rightarrow> error + unit" where
  "validate_lines lines =
     (case lines of
        [] \<Rightarrow> Inl IndexError
      | l0 # rest \<Rightarrow> validate_loop (direction l0) l0 1 rest)"

section \<open>The shape library\<close>

text \<open>
  The classes of \<open>drawings/lines.py\<close>, one constructor each, with the attributes stored by
  \<open>__init__\<close> in the order of its parameters. \<open>Corner\<close> is corner centre, length,
  width, height, hatch size, layer height, rotation in degrees, F, E; \<open>CornerRectangle\<close>
  is centre, rectangle width, rectangle height, corner length, corner width, height, layer
  height, hatch size, F, E; \<open>Rectangle3D\<close> is bottom left, width, length, structure height,
  hatch size, layer height, velocity; \<open>VerticalLine\<close> is position, z min, z max, F.
\<close>

datatype Drawable =
    SingleLine Coordinate Coordinate "real option" "real option"
  | XLines real real "(real \<times> real) list" real real
  | YLines real real "(real \<times> real) list" real real
  | PolyLine "Coordinate list" "real option" "real option"
  | PolyLines "Coordinate list list" "real option" "real option"
  | Corner Point real real real real real real "real option" "real option"
  | CornerRectangle Point real real real real real real real "real option" "real option"
  | Rectangle3D Point real real real real real "real option"
  | VerticalLine Point real real "real option"

text \<open>
  \<open>XLines.__init__\<close> and \<open>YLines.__init__\<close> call \<open>_Lines.__init__\<close>, which validates
  before it stores anything: a rejected list builds no object.
\<close>

definition XLines_init :: "real \<Rightarrow> real \<Rightarrow> (real \<times> real) list \<Rightarrow> real \<Rightarrow> real \<Rightarrow> error + Drawable" where
  "XLines_init y z ls v a =
     (case validate_lines ls of Inl e \<Rightarrow> Inl e | Inr _ \<Rightarrow> Inr (XLines y z ls v a))"

definition YLines_init :: "real \<Rightarrow> real \<Rightarrow> (real \<times> real) list \<Rightarrow> real \<Rightarrow> real \<Rightarrow> error + Drawable" where
  "YLines_init x z ls v a =
     (case validate_lines ls of Inl e \<Rightarrow> Inl e | Inr _ \<Rightarrow> Inr (YLines x z ls v a))"

section \<open>Lowering\<close>

text \<open>
  \<open>SingleLine.draw_on\<close>. The calls \<open>program.LINEAR(*self.start, ...)\<close> and
  \<open>program.LINEAR(*self.end, ...)\<close> unpack a mapping into positional arguments, which are
  its keys in insertion order.
\<close>

definition SingleLine_draw_on ::
  "'cs \<Rightarrow> Coordinate \<Rightarrow> Coordinate \<Rightarrow> real option \<Rightarrow> real option \<Rightarrow> 'cs DrawableAeroBasicProgram" where
  "SingleLine_draw_on cs start end F E =
     GALVO_LASER_OVERRIDE OFF (LINEAR_positional (map fst end) F E
       (GALVO_LASER_OVERRIDE ON (LINEAR_positional (map fst start) F E (new_program cs))))"

text \<open>The loop \<open>for line_start, line_end in self.lines\<close> of \<open>_Lines.draw_on\<close>.\<close>

fun Lines_loop ::
  "SingleAxis \<Rightarrow> real \<Rightarrow> (real \<times> real) list \<Rightarrow> 'cs DrawableAeroBasicProgram
    \<Rightarrow> 'cs DrawableAeroBasicProgram" where
  "Lines_loop ax v [] program = program"
| "Lines_loop ax v (line # rest) program =
     Lines_loop ax v rest
       (GALVO_LASER_OVERRIDE OFF
         (LINEAR_kwargs [(parameter_name ax, snd line), (''F'', v)]
           (GALVO_LASER_OVERRIDE ON
             (LINEAR_kwargs [(parameter_name ax, fst line), (''F'', v)] program))))"

text \<open>The four instructions that one pass of this loop appends for a segment.\<close>

definition sweep_block :: "SingleAxis \<Rightarrow> real \<Rightarrow> real \<times> real \<Rightarrow> Instruction list" where
  "sweep_block ax v line =
     [Move [(parameter_name ax, fst line)] (Some v) None, LaserGate ON,
      Move [(parameter_name ax, snd line)] (Some v) None, LaserGate OFF]"

text \<open>
  \<open>_Lines.draw_on\<close>. The division \<open>velocity ** 2 / (2 * acceleration)\<close> raises on a zero
  divisor, and \<open>self.lines[0]\<close> on an empty list.
\<close>

definition Lines_draw_on ::
  "'cs \<Rightarrow> SingleAxis \<Rightarrow> (real \<times> real) list \<Rightarrow> Coordinate \<Rightarrow> real \<Rightarrow> real
    \<Rightarrow> error + 'cs DrawableAeroBasicProgram" where
  "Lines_draw_on cs ax ls sec v a =
     (if 2 * a = 0 then Inl ZeroDivisionError
      else case ls of
        [] \<Rightarrow> Inl IndexError
      | l0 # _ \<Rightarrow>
          let acceleration_distance = v\<^sup>2 / (2 * a);
              start_value = fst l0 - direction l0 * acceleration_distance;
              start_position = dict_update [(parameter_name ax, start_value), (''F'', v)] sec;
              program = LINEAR_kwargs start_position (new_program cs);
              program = Lines_loop ax v ls program;
              end_value = snd (last ls) + direction l0 * acceleration_distance;
              end_position = dict_update [(parameter_name ax, end_value), (''F'', v)] sec
          in Inr (LINEAR_kwargs end_position program))"

text \<open>\<open>PolyLine.draw_on\<close>; \<open>self.line[0]\<close> raises on an empty list.\<close>

fun PolyLine_loop ::
  "real option \<Rightarrow> real option \<Rightarrow> Coordinate list \<Rightarrow> 'cs DrawableAeroBasicProgram
    \<Rightarrow> 'cs DrawableAeroBasicProgram" where
  "PolyLine_loop F E [] program = program"
| "PolyLine_loop F E (point # rest) program = PolyLine_loop F E rest (LINEAR point F E program)"

definition PolyLine_draw_on ::
  "'cs \<Rightarrow> Coordinate list \<Rightarrow> real option \<Rightarrow> real option
    \<Rightarrow> error + 'cs DrawableAeroBasicProgram" where
  "PolyLine_draw_on cs line F E =
     (case line of
        [] \<Rightarrow> Inl IndexError
      | p0 # rest \<Rightarrow>
          Inr (GALVO_LASER_OVERRIDE OFF
                (PolyLine_loop F E rest
                  (GALVO_LASER_OVERRIDE ON (LINEAR p0 F E (new_program cs))))))"

text \<open>Decimal digits of a number, for the f-string of the comment.\<close>

fun string_of_nat :: "nat \<Rightarrow> string" where
  "string_of_nat n =
     (if n < 10 then [''0123456789'' ! n]
      else string_of_nat (n div 10) @ [''0123456789'' ! (n mod 10)])"

declare string_of_nat.simps [simp del]

text \<open>The f-string \<open>"\\n[Polyline] - Draw line {i}:"\<close>.\<close>

definition polyline_comment :: "nat \<Rightarrow> string" where
  "polyline_comment i = CHR 0x0A # ''[Polyline] - Draw line '' @ string_of_nat i @ '':''"

text \<open>\<open>PolyLines.draw_on\<close>: the loop over \<open>enumerate(self.lines)\<close>.\<close>

fun PolyLines_loop ::
  "'cs \<Rightarrow> real option \<Rightarrow> real option \<Rightarrow> nat \<Rightarrow> Coordinate list list
    \<Rightarrow> 'cs DrawableAeroBasicProgram \<Rightarrow> error + 'cs DrawableAeroBasicProgram" where
  "PolyLines_loop cs F E i [] program = Inr program"
| "PolyLines_loop cs F E i (line # rest) program =
     (let program = comment (polyline_comment i) program
      in case PolyLine_draw_on cs line F E of
           Inl e \<Rightarrow> Inl e
         | Inr sub \<Rightarrow> PolyLines_loop cs F E (Suc i) rest (add_programm sub program))"

definition PolyLines_draw_on ::
  "'cs \<Rightarrow> Coordinate list list \<Rightarrow> real option \<Rightarrow> real option
    \<Rightarrow> error + 'cs DrawableAeroBasicProgram" where
  "PolyLines_draw_on cs ls F E = PolyLines_loop cs F E 0 ls (new_program cs)"

text \<open>
  The instructions that \<open>PolyLine.draw_on\<close> gives for a line with a first point, and
  those that \<open>PolyLines.draw_on\<close> gives for lines that all have one: for each line its
  comment and its instructions.
\<close>

definition PolyLine_instructions ::
  "real option \<Rightarrow> real option \<Rightarrow> Coordinate list \<Rightarrow> Instruction list" where
  "PolyLine_instructions F E line =
     (case line of
        [] \<Rightarrow> []
      | p0 # rest \<Rightarrow>
          Move p0 F E # LaserGate ON # map (\<lambda>pt. Move pt F E) rest @ [LaserGate OFF])"

definition PolyLines_instructions ::
  "real option \<Rightarrow> real option \<Rightarrow> Coordinate list list \<Rightarrow> Instruction list" where
  "PolyLines_instructions F E ls =
     concat (map (\<lambda>il. Comment (polyline_comment (fst il)) # PolyLine_instructions F E (snd il))
               (enumerate 0 ls))"

section \<open>Hatched corners\<close>

text \<open>
  Python's \<open>round\<close> on a float gives the nearest integer, and the even one of the two at a
  tie.
\<close>

definition py_round :: "real \<Rightarrow> int" where
  "py_round x =
     (let f = \<lfloor>x\<rfloor>; d = x - of_int f
      in if d < 1 / 2 then f else if 1 / 2 < d then f + 1 else if even f then f else f + 1)"

text \<open>
  The first two lines of \<open>Corner.draw_on\<close>: \<open>n = round(width / hatch_size) + 1\<close> and
  \<open>hatch_corrected = width / (n - 1)\<close>. Both divisions raise on a zero divisor.
\<close>

definition hatch_params :: "real \<Rightarrow> real \<Rightarrow> error + (int \<times> real)" where
  "hatch_params width hatch_size =
     (if hatch_size = 0 then Inl ZeroDivisionError
      else let n = py_round (width / hatch_size) + 1
           in if n - 1 = 0 then Inl ZeroDivisionError
              else Inr (n, width / of_int (n - 1)))"

text \<open>
  \<open>np.arange(start, stop, step)\<close> on floats: \<open>ceil((stop - start) / step)\<close> values
  \<open>start + k * step\<close>, none when that number is negative; a zero step raises.
\<close>

definition np_arange :: "real \<Rightarrow> real \<Rightarrow> real \<Rightarrow> error + real list" where
  "np_arange start stop step =
     (if step = 0 then Inl ZeroDivisionError
      else Inr (map (\<lambda>k. start + of_nat k * step) [0..<nat \<lceil>(stop - start) / step\<rceil>]))"

text \<open>
  \<open>Corner.single_layer\<close>. \<open>center_diagonal\<close> is the scalar \<open>-(i - n / 2) * hatch\<close> of stroke
  \<open>i\<close>; \<open>stroke_points\<close> are \<open>p1\<close>, \<open>p2\<close>, \<open>p3\<close> as mappings, in this order;
  \<open>stroke\<close> is the list appended for \<open>i\<close>, in one order or the other.
\<close>

definition center_diagonal :: "int \<Rightarrow> real \<Rightarrow> nat \<Rightarrow> real" where
  "center_diagonal n hatch i = - (of_nat i - of_int n / 2) * hatch"

definition stroke_points ::
  "Point \<Rightarrow> real \<Rightarrow> real \<Rightarrow> int \<Rightarrow> real \<Rightarrow> real \<Rightarrow> nat \<Rightarrow> Coordinate list" where
  "stroke_points corner_center len width n hatch rotation_rad i =
     (let cd = center_diagonal n hatch i;
          offset = len - width / 2;
          p1 = point_add corner_center (rotate2D rotation_rad (Point2D offset cd));
          p2 = point_add corner_center (rotate2D rotation_rad (Point2D cd cd));
          p3 = point_add corner_center (rotate2D rotation_rad (Point2D cd offset))
      in [as_dict p1, as_dict p2, as_dict p3])"

definition stroke ::
  "Point \<Rightarrow> real \<Rightarrow> real \<Rightarrow> int \<Rightarrow> real \<Rightarrow> bool \<Rightarrow> real \<Rightarrow> nat \<Rightarrow> Coordinate list" where
  "stroke corner_center len width n hatch change_start rotation_rad i =
     (let cd = center_diagonal n hatch i;
          offset = len - width / 2;
          p1 = point_add corner_center (rotate2D rotation_rad (Point2D offset cd));
          p2 = point_add corner_center (rotate2D rotation_rad (Point2D cd cd));
          p3 = point_add corner_center (rotate2D rotation_rad (Point2D cd offset))
      in if (i + (if change_start then 1 else 0)) mod 2 = 0
         then [as_dict p1, as_dict p2, as_dict p3]
         else [as_dict p3, as_dict p2, as_dict p1])"

definition single_layer ::
  "Point \<Rightarrow> real \<Rightarrow> real \<Rightarrow> int \<Rightarrow> real \<Rightarrow> bool \<Rightarrow> real \<Rightarrow> Coordinate list list" where
  "single_layer corner_center len width n hatch change_start rotation_rad =
     map (stroke corner_center len width n hatch change_start rotation_rad) [0..<nat n]"

text \<open>The loop of \<open>Corner.draw_on\<close> over the layer heights, \<open>change_start\<close> toggling.\<close>

fun Corner_loop ::
  "'cs \<Rightarrow> Point \<Rightarrow> real \<Rightarrow> real \<Rightarrow> int \<Rightarrow> real \<Rightarrow> real \<Rightarrow> real option \<Rightarrow> real option
    \<Rightarrow> real list \<Rightarrow> bool \<Rightarrow> 'cs DrawableAeroBasicProgram
    \<Rightarrow> error + 'cs DrawableAeroBasicProgram" where
  "Corner_loop cs cc len width n hatch rot F E [] change_start program = Inr program"
| "Corner_loop cs cc len width n hatch rot F E (z # zs) change_start program =
     (case PolyLines_draw_on cs
             (single_layer (point_add cc (Point3D 0 0 z)) len width n hatch change_start rot) F E of
        Inl e \<Rightarrow> Inl e
      | Inr sub \<Rightarrow>
          Corner_loop cs cc len width n hatch rot F E zs (\<not> change_start)
            (add_programm sub program))"

definition Corner_draw_on ::
  "'cs \<Rightarrow> Point \<Rightarrow> real \<Rightarrow> real \<Rightarrow> real \<Rightarrow> real \<Rightarrow> real \<Rightarrow> real \<Rightarrow> real option \<Rightarrow> real option
    \<Rightarrow> error + 'cs DrawableAeroBasicProgram" where
  "Corner_draw_on cs cc len width height hatch_size layer_height rotation_degree F E =
     (case hatch_params width hatch_size of
        Inl e \<Rightarrow> Inl e
      | Inr (n, hatch_corrected) \<Rightarrow>
          (case np_arange 0 height layer_height of
             Inl e \<Rightarrow> Inl e
           | Inr zs \<Rightarrow>
               Corner_loop cs cc len width n hatch_corrected (rotation_degree / 180 * pi) F E
                 zs False (new_program cs)))"

text \<open>
  \<open>CornerRectangle\<close>: the four corners built by \<open>__init__\<close>, and \<open>draw_on\<close>, which lowers
  them top left, top right, bottom right, bottom left.
\<close>

definition CornerRectangle_draw_on ::
  "'cs \<Rightarrow> Point \<Rightarrow> real \<Rightarrow> real \<Rightarrow> real \<Rightarrow> real \<Rightarrow> real \<Rightarrow> real \<Rightarrow> real
    \<Rightarrow> real option \<Rightarrow> real option \<Rightarrow> error + 'cs DrawableAeroBasicProgram" where
  "CornerRectangle_draw_on cs center rw rh cl cw height layer_height hatch_size F E =
     (let tl = Corner_draw_on cs (point_add center (Point2D (- rw / 2) (- rh / 2)))
                 cl cw height hatch_size layer_height 0 F E;
          tr = Corner_draw_on cs (point_add center (Point2D (rw / 2) (- rh / 2)))
                 cl cw height hatch_size layer_height 90 F E;
          bl = Corner_draw_on cs (point_add center (Point2D (- rw / 2) (rh / 2)))
                 cl cw height hatch_size layer_height 270 F E;
          br = Corner_draw_on cs (point_add center (Point2D (rw / 2) (rh / 2)))
                 cl cw height hatch_size layer_height 180 F E;
          program = comment (CHR 0x0A # ''Drawing Top Left corner'') (new_program cs)
      in case tl of Inl e \<Rightarrow> Inl e | Inr p1 \<Rightarrow>
         (let program = comment (CHR 0x0A # ''Drawing Top Right corner'') (add_programm p1 program)
          in case tr of Inl e \<Rightarrow> Inl e | Inr p2 \<Rightarrow>
         (let program = comment (CHR 0x0A # ''Drawing Bottom Right corner'') (add_programm p2 program)
          in case br of Inl e \<Rightarrow> Inl e | Inr p3 \<Rightarrow>
         (let program = comment (CHR 0x0A # ''Drawing Bottom Left corner'') (add_programm p3 program)
          in case bl of Inl e \<Rightarrow> Inl e | Inr p4 \<Rightarrow> Inr (add_programm p4 program)))))"

text \<open>\<open>VerticalLine.draw_on\<close>: \<open>point["Z"] = ...\<close> updates the mapping of the position.\<close>

definition VerticalLine_draw_on ::
  "'cs \<Rightarrow> Point \<Rightarrow> real \<Rightarrow> real \<Rightarrow> real option \<Rightarrow> 'cs DrawableAeroBasicProgram" where
  "VerticalLine_draw_on cs position z_min z_max F =
     (let point = AList.update ''Z'' z_min (as_dict position);
          program = GALVO_LASER_OVERRIDE ON (LINEAR point F None (new_program cs));
          point = AList.update ''Z'' z_max point
      in GALVO_LASER_OVERRIDE OFF (LINEAR point F None program))"

text \<open>
  \<open>draw_on\<close>, dispatched on the class. \<open>Rectangle3D.draw_on\<close> raises at its first
  statement.
\<close>

fun draw_on :: "'cs \<Rightarrow> Drawable \<Rightarrow> error + 'cs DrawableAeroBasicProgram" where
  "draw_on cs (SingleLine start end F E) = Inr (SingleLine_draw_on cs start end F E)"
| "draw_on cs (XLines y z ls v a) = Lines_draw_on cs X ls [(''Y'', y), (''Z'', z)] v a"
| "draw_on cs (YLines x z ls v a) = Lines_draw_on cs Y ls [(''X'', x), (''Z'', z)] v a"
| "draw_on cs (PolyLine line F E) = PolyLine_draw_on cs line F E"
| "draw_on cs (PolyLines ls F E) = PolyLines_draw_on cs ls F E"
| "draw_on cs (Corner cc len width height hatch_size layer_height rotation_degree F E) =
     Corner_draw_on cs cc len width height hatch_size layer_height rotation_degree F E"
| "draw_on cs (CornerRectangle center rw rh cl cw height layer_height hatch_size F E) =
     CornerRectangle_draw_on cs center rw rh cl cw height layer_height hatch_size F E"
| "draw_on cs (Rectangle3D bottom_left width len structure_height hatch_size layer_height velocity) =
     Inl NotImplementedError"
| "draw_on cs (VerticalLine position z_min z_max F) =
     Inr (VerticalLine_draw_on cs position z_min z_max F)"

text \<open>
  The gate discipline of a program, read off its instructions from left to right; the flag
  says whether a gate is open. A program is well gated when it starts and ends closed, never
  opens an open gate and never closes a closed one.
\<close>

fun gated :: "bool \<Rightarrow> Instruction list \<Rightarrow> bool" where
  "gated on [] = (\<not> on)"
| "gated on (LaserGate ON # rest) = (\<not> on \<and> gated True rest)"
| "gated on (LaserGate OFF # rest) = (on \<and> gated False rest)"
| "gated on (Move c f e # rest) = gated on rest"
| "gated on (Comment t # rest) = gated on rest"
| "gated on (MovePositional args f e # rest) = gated on rest"

definition well_gated :: "Instruction list \<Rightarrow> bool" where
  "well_gated prog = gated False prog"

text \<open>The gate instructions of a program, in order.\<close>

fun gate_trace :: "Instruction list \<Rightarrow> GalvoLaserOverrideMode list" where
  "gate_trace [] = []"
| "gate_trace (LaserGate m # rest) = m # gate_trace rest"
| "gate_trace (Move c f e # rest) = gate_trace rest"
| "gate_trace (Comment t # rest) = gate_trace rest"
| "gate_trace (MovePositional args f e # rest) = gate_trace rest"

section \<open>Centre points of polylines\<close>

text \<open>
  \<open>values[k].append(v)\<close> for the items of one coordinate; a key that \<open>values\<close> lacks
  raises.
\<close>

fun append_items ::
  "Coordinate \<Rightarrow> (string \<times> real list) list \<Rightarrow> error + (string \<times> real list) list" where
  "append_items [] values = Inr values"
| "append_items (kv # rest) values =
     (case map_of values (fst kv) of
        None \<Rightarrow> Inl (KeyError (fst kv))
      | Some vs \<Rightarrow> append_items rest (AList.update (fst kv) (vs @ [snd kv]) values))"

fun collect_values ::
  "Coordinate list \<Rightarrow> (string \<times> real list) list \<Rightarrow> error + (string \<times> real list) list" where
  "collect_values [] values = Inr values"
| "collect_values (coordinate # rest) values =
     (case append_items coordinate values of
        Inl e \<Rightarrow> Inl e
      | Inr values' \<Rightarrow> collect_values rest values')"

text \<open>
  The comprehensions \<open>{k: np.min(v) for k, v in values}\<close> and its \<open>np.max\<close> twin iterate
  over the dictionary itself, that is over its keys, and unpack each key, a string, into
  \<open>k, v\<close>. A key that has not exactly two characters cannot be unpacked; for one that has,
  \<open>v\<close> is a one-character string, of which numpy takes no minimum. Only an empty
  dictionary passes.
\<close>

fun key_comprehension :: "string list \<Rightarrow> error + (char \<times> real) list" where
  "key_comprehension [] = Inr []"
| "key_comprehension (key # rest) =
     (case key of [k, v] \<Rightarrow> Inl TypeError | _ \<Rightarrow> Inl UnpackError)"

text \<open>
  Modelled from the spec: the constructors of the missing classes \<open>Point3D\<close> and
  \<open>Point2D\<close>, called with the centre as keyword arguments, the 3D one first and the 2D one
  when it raises; each needs exactly its own axes.
\<close>

definition point_of_center :: "(char \<times> real) list \<Rightarrow> error + Point" where
  "point_of_center center =
     (case (map_of center CHR ''X'', map_of center CHR ''Y'', map_of center CHR ''Z'') of
        (Some x, Some y, Some z) \<Rightarrow>
          (if length center = 3 then Inr (Point3D x y z) else Inl TypeError)
      | (Some x, Some y, None) \<Rightarrow>
          (if length center = 2 then Inr (Point2D x y) else Inl TypeError)
      | _ \<Rightarrow> Inl TypeError)"

definition center_of_values :: "(string \<times> real list) list \<Rightarrow> error + Point" where
  "center_of_values values =
     (case key_comprehension (map fst values) of
        Inl e \<Rightarrow> Inl e
      | Inr min_coord \<Rightarrow>
          (case key_comprehension (map fst values) of
             Inl e \<Rightarrow> Inl e
           | Inr max_coord \<Rightarrow>
               point_of_center
                 (map (\<lambda>ab. (fst (fst ab), (snd (fst ab) + snd (snd ab)) / 2))
                    (zip min_coord max_coord))))"

definition PolyLine_center_point :: "Coordinate list \<Rightarrow> error + Point" where
  "PolyLine_center_point line =
     (case line of
        [] \<Rightarrow> Inl IndexError
      | c0 # _ \<Rightarrow>
          (case collect_values line (map (\<lambda>kv. (fst kv, [])) c0) of
             Inl e \<Rightarrow> Inl e
           | Inr values \<Rightarrow> center_of_values values))"

definition PolyLines_center_point :: "Coordinate list list \<Rightarrow> error + Point" where
  "PolyLines_center_point ls =
     (case ls of
        [] \<Rightarrow> Inl IndexError
      | l0 # _ \<Rightarrow>
          (case l0 of
             [] \<Rightarrow> Inl IndexError
           | c0 # _ \<Rightarrow>
               (case collect_values (concat ls) (map (\<lambda>kv. (fst kv, [])) c0) of
                  Inl e \<Rightarrow> Inl e
                | Inr values \<Rightarrow> center_of_values values)))"

text \<open>
  What the centre point is to be: the midpoint of the smallest and the largest value of an
  axis over the points of a line.
\<close>

definition bounding_box_center :: "Coordinate list \<Rightarrow> string \<Rightarrow> real option" where
  "bounding_box_center line k =
     (case List.map_filter (\<lambda>c. map_of c k) line of
        [] \<Rightarrow> None
      | v # vs \<Rightarrow> Some ((fold min vs v + fold max vs v) / 2))"

section \<open>Plane fit\<close>

type_synonym vec3 = "real \<times> real \<times> real"

definition dot3 :: "vec3 \<Rightarrow> vec3 \<Rightarrow> real" where
  "dot3 u v = fst u * fst v + fst (snd u) * fst (snd v) + snd (snd u) * snd (snd v)"

definition sub3 :: "vec3 \<Rightarrow> vec3 \<Rightarrow> vec3" where
  "sub3 u v = (fst u - fst v, fst (snd u) - fst (snd v), snd (snd u) - snd (snd v))"

definition cross3 :: "vec3 \<Rightarrow> vec3 \<Rightarrow> vec3" where
  "cross3 u v =
     (fst (snd u) * snd (snd v) - snd (snd u) * fst (snd v),
      snd (snd u) * fst v - fst u * snd (snd v),
      fst u * fst (snd v) - fst (snd u) * fst v)"

text \<open>\<open>np.arctan2(y, x)\<close> on real numbers.\<close>

definition arctan2 :: "real \<Rightarrow> real \<Rightarrow> real" where
  "arctan2 y x =
     (if 0 < x then arctan (y / x)
      else if x < 0 then (if 0 \<le> y then arctan (y / x) + pi else arctan (y / x) - pi)
      else if 0 < y then pi / 2
      else if y < 0 then - pi / 2
      else 0)"

text \<open>The operator \<open>%\<close> on floats: the result has the sign of the divisor.\<close>

definition py_mod :: "real \<Rightarrow> real \<Rightarrow> real" where
  "py_mod a m = a - m * of_int \<lfloor>a / m\<rfloor>"

text \<open>
  The rows of \<open>A\<close> after \<open>A[:,-1] = 1.0\<close>, and \<open>b\<close>, the last column of the samples.
\<close>

definition design_matrix :: "vec3 list \<Rightarrow> vec3 list" where
  "design_matrix points = map (\<lambda>p. (fst p, fst (snd p), 1)) points"

definition target :: "vec3 list \<Rightarrow> real list" where
  "target points = map (\<lambda>p. snd (snd p)) points"

text \<open>\<open>getz\<close> and \<open>getvec\<close>, on the parameters of the plane.\<close>

definition getz :: "vec3 \<Rightarrow> real \<Rightarrow> real \<Rightarrow> real" where
  "getz params x y = dot3 params (x, y, 1)"

definition getvec :: "vec3 \<Rightarrow> real \<Rightarrow> real \<Rightarrow> vec3" where
  "getvec params x y = (x, y, getz params x y)"

text \<open>
  The azimuth of a normal vector with lateral components \<open>x\<close> and \<open>y\<close>, as the two
  assignments to \<open>self.phi\<close> compute it.
\<close>

definition azimuth :: "real \<Rightarrow> real \<Rightarrow> real" where
  "azimuth x y = py_mod (arctan2 y x * 180 / pi) 360 - 180"

record PlaneFit =
  params :: vec3
  dev :: "real list"
  avg :: real
  slope :: real
  theta :: real
  phi :: real

text \<open>
  \<open>PlaneFit.__init__\<close>. The solver \<open>np.linalg.lstsq(A, b, rcond=None)[0]\<close> belongs to
  numpy and is a parameter \<open>lstsq\<close>; it is called only when no parameters are given.
  An empty sample list makes a one-dimensional array, and \<open>A[:,-1]\<close> raises on it.
\<close>

definition PlaneFit_init ::
  "(vec3 list \<Rightarrow> real list \<Rightarrow> vec3) \<Rightarrow> vec3 list \<Rightarrow> vec3 option \<Rightarrow> error + PlaneFit" where
  "PlaneFit_init lstsq points params_arg =
     (if points = [] then Inl IndexError
      else
        let A = design_matrix points;
            b = target points;
            ps = (case params_arg of None \<Rightarrow> lstsq A b | Some given \<Rightarrow> given);
            dv = map (\<lambda>rb. dot3 (fst rb) ps - snd rb) (zip A b);
            av = sqrt (sum_list (map (\<lambda>d. d * d) dv)) / of_nat (length dv);
            p0 = getvec ps 0 0;
            p1 = sub3 (getvec ps 1 0) p0;
            p2 = sub3 (getvec ps 0 1) p0;
            nrm = cross3 p1 p2;
            x = fst nrm; y = fst (snd nrm); z = snd (snd nrm);
            rxy = sqrt (x\<^sup>2 + y\<^sup>2)
        in Inr \<lparr>params = ps, dev = dv, avg = av, slope = rxy / z,
                 theta = arctan2 rxy z * 180 / pi, phi = azimuth x y\<rparr>)"

text \<open>The cached property \<open>max_dev\<close>: \<open>np.max\<close> raises on an empty array.\<close>

definition max_dev :: "PlaneFit \<Rightarrow> error + real" where
  "max_dev pf =
     (case map abs (dev pf) of
        [] \<Rightarrow> Inl EmptyReduction
      | d # ds \<Rightarrow> Inr (fold max ds d))"

text \<open>
  What numpy documents of \<open>lstsq\<close>: the result minimises the sum of the squared residuals,
  and has the least norm among the vectors that do.
\<close>

definition residual_sq :: "vec3 list \<Rightarrow> real list \<Rightarrow> vec3 \<Rightarrow> real" where
  "residual_sq A b p = sum_list (map (\<lambda>rb. (dot3 (fst rb) p - snd rb)\<^sup>2) (zip A b))"

definition is_lstsq :: "vec3 list \<Rightarrow> real list \<Rightarrow> vec3 \<Rightarrow> bool" where
  "is_lstsq A b p \<longleftrightarrow>
     (\<forall>q. residual_sq A b p \<le> residual_sq A b q) \<and>
     (\<forall>q. residual_sq A b q = residual_sq A b p \<longrightarrow> dot3 p p \<le> dot3 q q)"

text \<open>
  Samples taken exactly from the plane \<open>z = sx * x + sy * y + z0\<close>, and samples of which
  three do not lie on one line of the xy plane.
\<close>

definition on_plane :: "vec3 \<Rightarrow> vec3 list \<Rightarrow> bool" where
  "on_plane pl points \<longleftrightarrow> (\<forall>p\<in>set points. snd (snd p) = getz pl (fst p) (fst (snd p)))"

definition det_xy :: "vec3 \<Rightarrow> vec3 \<Rightarrow> vec3 \<Rightarrow> real" where
  "det_xy p q r =
     (fst p - fst r) * (fst (snd q) - fst (snd r)) - (fst q - fst r) * (fst (snd p) - fst (snd r))"

definition non_collinear :: "vec3 list \<Rightarrow> bool" where
  "non_collinear points \<longleftrightarrow>
     (\<exists>p\<in>set points. \<exists>q\<in>set points. \<exists>r\<in>set points. det_xy p q r \<noteq> 0)"

text \<open>
  A solver that answers the given vector; it stands for numpy's on a sample list of which
  that vector is the solution.
\<close>

definition solver_returning :: "vec3 \<Rightarrow> vec3 list \<Rightarrow> real list \<Rightarrow> vec3" where
  "solver_returning p A b = p"

section \<open>Validation of monotone line sweeps\<close>

lemma validate_loop_ok:
  "(validate_loop d l0 i rest = Inr ()) = (\<forall>seg\<in>set rest. direction seg = d)"
  by (induction rest arbitrary: i) auto

lemma validate_loop_first_mismatch:
  "k < length rest \<Longrightarrow> direction (rest ! k) \<noteq> d \<Longrightarrow>
   (\<forall>j<k. direction (rest ! j) = d) \<Longrightarrow>
   validate_loop d l0 i rest = Inl (DirectionMismatch (i + k) l0 (rest ! k))"
proof (induction rest arbitrary: i k)
  case Nil
  then show ?case by simp
next
  case (Cons line rest)
  show ?case
  proof (cases k)
    case 0
    with Cons.prems show ?thesis by simp
  next
    case (Suc k')
    from Cons.prems Suc have h0: "direction line = d" by auto
    from Cons.prems Suc have "k' < length rest" "direction (rest ! k') \<noteq> d"
      "\<forall>j<k'. direction (rest ! j) = d" by auto
    from Cons.IH[OF this, of "Suc i"] h0 Suc show ?thesis by simp
  qed
qed

lemma validate_lines_ok:
  assumes "ls \<noteq> []"
  shows "(validate_lines ls = Inr ()) = (\<forall>seg\<in>set ls. direction seg = direction (ls ! 0))"
proof (cases ls)
  case Nil
  with assms show ?thesis by simp
next
  case (Cons l0 rest)
  then show ?thesis by (simp add: validate_lines_def validate_loop_ok)
qed

lemma validate_lines_mismatch:
  assumes i0: "0 < i" and il: "i < length ls"
    and bad: "direction (ls ! i) \<noteq> direction (ls ! 0)"
    and good: "\<forall>j<i. direction (ls ! j) = direction (ls ! 0)"
  shows "validate_lines ls = Inl (DirectionMismatch i (ls ! 0) (ls ! i))"
proof -
  from il obtain l0 rest where ls: "ls = l0 # rest" by (cases ls) simp_all
  from i0 obtain k where k: "i = Suc k" by (cases i) simp_all
  have a1: "k < length rest" using il unfolding ls k by simp
  have a2: "direction (rest ! k) \<noteq> direction l0" using bad unfolding ls k by simp
  have a3: "\<forall>j<k. direction (rest ! j) = direction l0"
  proof (intro allI impI)
    fix j assume "j < k"
    then have "Suc j < i" unfolding k by simp
    with good have "direction (ls ! Suc j) = direction (ls ! 0)" by blast
    then show "direction (rest ! j) = direction l0" unfolding ls by simp
  qed
  show ?thesis unfolding ls k
    using validate_loop_first_mismatch[OF a1 a2 a3, of l0 1] by (simp add: validate_lines_def)
qed

lemma XLines_init_cases:
  "XLines_init y z ls v a = (case validate_lines ls of Inl e \<Rightarrow> Inl e | Inr u \<Rightarrow> Inr (XLines y z ls v a))"
  by (simp add: XLines_init_def)

text \<open>
  Claim C1, as the code has it. For a non-empty segment list, the construction of an
  \<open>XLines\<close> or \<open>YLines\<close> object succeeds exactly when every segment has the sign of
  \<open>end - start\<close> that segment 0 has, and raises otherwise. When exactly one segment \<open>i\<close>
  with \<open>i \<ge> 1\<close> has another sign than the others, the error raised names the index \<open>i\<close>,
  segment 0 and segment \<open>i\<close>. The error is the result of the constructor: no object exists
  that could be lowered.
\<close>

theorem sweep_construction_validates:
  "(ls \<noteq> [] \<longrightarrow>
      ((XLines_init y z ls v a = Inr (XLines y z ls v a)) = (\<forall>seg\<in>set ls. direction seg = direction (ls ! 0))) \<and>
      ((YLines_init x z ls v a = Inr (YLines x z ls v a)) = (\<forall>seg\<in>set ls. direction seg = direction (ls ! 0))) \<and>
      ((\<exists>e. XLines_init y z ls v a = Inl e) = (\<exists>seg\<in>set ls. direction seg \<noteq> direction (ls ! 0))) \<and>
      ((\<exists>e. YLines_init x z ls v a = Inl e) = (\<exists>seg\<in>set ls. direction seg \<noteq> direction (ls ! 0)))) \<and>
   (0 < i \<and> i < length ls \<and> direction (ls ! i) \<noteq> direction (ls ! 0) \<and>
      (\<forall>j<length ls. j \<noteq> i \<longrightarrow> direction (ls ! j) = direction (ls ! 0)) \<longrightarrow>
      XLines_init y z ls v a = Inl (DirectionMismatch i (ls ! 0) (ls ! i)) \<and>
      YLines_init x z ls v a = Inl (DirectionMismatch i (ls ! 0) (ls ! i)))"
proof -
  have ok: "(validate_lines ls = Inr ()) = (\<forall>seg\<in>set ls. direction seg = direction (ls ! 0))"
    if "ls \<noteq> []"
    using that by (rule validate_lines_ok)
  have bad: "validate_lines ls = Inl (DirectionMismatch i (ls ! 0) (ls ! i))"
    if h: "0 < i \<and> i < length ls \<and> direction (ls ! i) \<noteq> direction (ls ! 0) \<and>
      (\<forall>j<length ls. j \<noteq> i \<longrightarrow> direction (ls ! j) = direction (ls ! 0))"
  proof (rule validate_lines_mismatch)
    show "0 < i" "i < length ls" "direction (ls ! i) \<noteq> direction (ls ! 0)"
      using h by blast+
    show "\<forall>j<i. direction (ls ! j) = direction (ls ! 0)"
    proof (intro allI impI)
      fix j assume "j < i"
      then have "j < length ls" "j \<noteq> i" using h by linarith+
      with h show "direction (ls ! j) = direction (ls ! 0)" by blast
    qed
  qed
  have part1: "ls \<noteq> [] \<longrightarrow>
      ((XLines_init y z ls v a = Inr (XLines y z ls v a)) = (\<forall>seg\<in>set ls. direction seg = direction (ls ! 0))) \<and>
      ((YLines_init x z ls v a = Inr (YLines x z ls v a)) = (\<forall>seg\<in>set ls. direction seg = direction (ls ! 0))) \<and>
      ((\<exists>e. XLines_init y z ls v a = Inl e) = (\<exists>seg\<in>set ls. direction seg \<noteq> direction (ls ! 0))) \<and>
      ((\<exists>e. YLines_init x z ls v a = Inl e) = (\<exists>seg\<in>set ls. direction seg \<noteq> direction (ls ! 0)))"
  proof
    assume ne: "ls \<noteq> []"
    show "((XLines_init y z ls v a = Inr (XLines y z ls v a)) = (\<forall>seg\<in>set ls. direction seg = direction (ls ! 0))) \<and>
      ((YLines_init x z ls v a = Inr (YLines x z ls v a)) = (\<forall>seg\<in>set ls. direction seg = direction (ls ! 0))) \<and>
      ((\<exists>e. XLines_init y z ls v a = Inl e) = (\<exists>seg\<in>set ls. direction seg \<noteq> direction (ls ! 0))) \<and>
      ((\<exists>e. YLines_init x z ls v a = Inl e) = (\<exists>seg\<in>set ls. direction seg \<noteq> direction (ls ! 0)))"
      using ok[OF ne]
      by (cases "validate_lines ls") (simp_all add: XLines_init_def YLines_init_def)
  qed
  have part2: "0 < i \<and> i < length ls \<and> direction (ls ! i) \<noteq> direction (ls ! 0) \<and>
      (\<forall>j<length ls. j \<noteq> i \<longrightarrow> direction (ls ! j) = direction (ls ! 0)) \<longrightarrow>
      XLines_init y z ls v a = Inl (DirectionMismatch i (ls ! 0) (ls ! i)) \<and>
      YLines_init x z ls v a = Inl (DirectionMismatch i (ls ! 0) (ls ! i))"
  proof
    assume h: "0 < i \<and> i < length ls \<and> direction (ls ! i) \<noteq> direction (ls ! 0) \<and>
      (\<forall>j<length ls. j \<noteq> i \<longrightarrow> direction (ls ! j) = direction (ls ! 0))"
    show "XLines_init y z ls v a = Inl (DirectionMismatch i (ls ! 0) (ls ! i)) \<and>
      YLines_init x z ls v a = Inl (DirectionMismatch i (ls ! 0) (ls ! i))"
      using bad[OF h] by (simp add: XLines_init_def YLines_init_def)
  qed
  from part1 part2 show ?thesis by (rule conjI)
qed

text \<open>Claim C1 at concrete lists: an accepted one, and two with one reversed segment.\<close>

theorem sweep_construction_validates_witness:
  "XLines_init 5 7 [(0, 1), (2, 3)] 200 1000 = Inr (XLines 5 7 [(0, 1), (2, 3)] 200 1000) \<and>
   XLines_init 5 7 [(0, 1), (3, 2), (4, 6)] 200 1000 = Inl (DirectionMismatch 1 (0, 1) (3, 2)) \<and>
   YLines_init 5 7 [(0, 1), (2, 3), (6, 4)] 200 1000 = Inl (DirectionMismatch 2 (0, 1) (6, 4))"
proof -
  have a: "XLines_init 5 7 [(0, 1), (2, 3)] 200 1000 = Inr (XLines 5 7 [(0, 1), (2, 3)] 200 1000)"
    using sweep_construction_validates[of "[(0, 1), (2, 3)]" 5 7 200 1000 5 0]
    by (simp add: direction_def)
  have b: "XLines_init 5 7 [(0, 1), (3, 2), (4, 6)] 200 1000 = Inl (DirectionMismatch 1 (0, 1) (3, 2))"
    using sweep_construction_validates[of "[(0, 1), (3, 2), (4, 6)]" 5 7 200 1000 5 1]
    by (simp add: direction_def All_less_Suc numeral_3_eq_3)
  have c: "YLines_init 5 7 [(0, 1), (2, 3), (6, 4)] 200 1000 = Inl (DirectionMismatch 2 (0, 1) (6, 4))"
    using sweep_construction_validates[of "[(0, 1), (2, 3), (6, 4)]" 5 7 200 1000 5 2]
    by (simp add: direction_def All_less_Suc numeral_3_eq_3)
  from a b c show ?thesis by simp
qed

text \<open>
  Claim C1 as stated fails when the deviating segment is segment 0: in a list of three
  segments of which only the first is reversed, the error names index 1.
\<close>

theorem sweep_first_segment_counterexample:
  "direction ((1, 0) :: real \<times> real) \<noteq> direction (0, 1) \<and>
   direction ((0, 1) :: real \<times> real) = direction (0, 1) \<and>
   XLines_init 0 0 [(1, 0), (0, 1), (0, 1)] 1 1 = Inl (DirectionMismatch 1 (1, 0) (0, 1)) \<and>
   XLines_init 0 0 [(1, 0), (0, 1), (0, 1)] 1 1 \<noteq> Inl (DirectionMismatch 0 (0, 1) (1, 0)) \<and>
   XLines_init 0 0 [(1, 0), (0, 1), (0, 1)] 1 1 \<noteq> Inl (DirectionMismatch 0 (1, 0) (0, 1))"
  by (simp add: XLines_init_def validate_lines_def direction_def)

section \<open>Laser gating of the lowered programs\<close>

lemma instructions_new_program: "instructions (new_program cs) = []"
  by (simp add: new_program_def)

lemma instructions_LINEAR: "instructions (LINEAR c f e p) = instructions p @ [Move c f e]"
  by (simp add: LINEAR_def)

lemma instructions_LINEAR_positional:
  "instructions (LINEAR_positional args f e p) = instructions p @ [MovePositional args f e]"
  by (simp add: LINEAR_positional_def)

lemma instructions_LINEAR_kwargs:
  "instructions (LINEAR_kwargs kw p) =
     instructions p @ [Move (filter (\<lambda>kv. fst kv \<noteq> ''F'' \<and> fst kv \<noteq> ''E'') kw)
                         (map_of kw ''F'') (map_of kw ''E'')]"
  by (simp add: LINEAR_kwargs_def LINEAR_def)

lemma instructions_GALVO:
  "instructions (GALVO_LASER_OVERRIDE m p) = instructions p @ [LaserGate m]"
  by (simp add: GALVO_LASER_OVERRIDE_def)

lemma instructions_comment: "instructions (comment t p) = instructions p @ [Comment t]"
  by (simp add: comment_def)

lemma instructions_add_programm:
  "instructions (add_programm other p) = instructions p @ instructions other"
  by (simp add: add_programm_def)

lemmas instructions_simps = instructions_new_program instructions_LINEAR
  instructions_LINEAR_positional
  instructions_LINEAR_kwargs instructions_GALVO instructions_comment instructions_add_programm

lemma gated_append: "gated a xs \<Longrightarrow> gated a (xs @ ys) = gated False ys"
  by (induction a xs rule: gated.induct) auto

lemma well_gated_append:
  "well_gated xs \<Longrightarrow> well_gated ys \<Longrightarrow> well_gated (xs @ ys)"
  by (simp add: well_gated_def gated_append)

lemma well_gated_Move: "well_gated [Move c f e]"
  by (simp add: well_gated_def)

lemma well_gated_Comment: "well_gated [Comment t]"
  by (simp add: well_gated_def)

lemma well_gated_Nil: "well_gated []"
  by (simp add: well_gated_def)

lemma parameter_name_not_rate:
  "parameter_name ax \<noteq> ''F''" "parameter_name ax \<noteq> ''E''"
  "''F'' \<noteq> parameter_name ax" "''E'' \<noteq> parameter_name ax"
  by (cases ax; simp)+

lemma Lines_loop_instructions:
  "instructions (Lines_loop ax v ls p) = instructions p @ concat (map (sweep_block ax v) ls)"
proof (induction ls arbitrary: p)
  case Nil
  show ?case by simp
next
  case (Cons line rest)
  show ?case
    by (simp add: Cons.IH instructions_simps parameter_name_not_rate sweep_block_def)
qed

lemma well_gated_concat:
  "(\<And>b. b \<in> set bs \<Longrightarrow> well_gated b) \<Longrightarrow> well_gated (concat bs)"
  by (induction bs) (simp_all add: well_gated_Nil well_gated_append)

lemma Lines_draw_on_gated:
  assumes "Lines_draw_on cs ax ls sec v a = Inr p"
  shows "well_gated (instructions p)"
proof -
  from assms obtain l0 rest where ls: "ls = l0 # rest"
    by (cases ls) (simp_all add: Lines_draw_on_def split: if_splits)
  have blocks: "well_gated (concat (map (sweep_block ax v) ls))"
    by (rule well_gated_concat) (auto simp: well_gated_def sweep_block_def)
  from assms have "\<exists>c1 f1 e1 c2 f2 e2. instructions p =
      [Move c1 f1 e1] @ concat (map (sweep_block ax v) ls) @ [Move c2 f2 e2]"
    unfolding ls
    by (auto simp: Lines_draw_on_def Let_def instructions_simps Lines_loop_instructions
        simp del: Lines_loop.simps split: if_splits)
  then obtain c1 f1 e1 c2 f2 e2 where
    "instructions p = [Move c1 f1 e1] @ concat (map (sweep_block ax v) ls) @ [Move c2 f2 e2]"
    by blast
  then show ?thesis
    using blocks by (simp only: well_gated_append well_gated_Move)
qed

lemma PolyLine_loop_instructions:
  "instructions (PolyLine_loop F E pts p) = instructions p @ map (\<lambda>pt. Move pt F E) pts"
  by (induction pts arbitrary: p) (simp_all add: instructions_simps)

lemma PolyLine_draw_on_instructions:
  "PolyLine_draw_on cs (p0 # rest) F E = Inr p \<Longrightarrow>
   instructions p = Move p0 F E # LaserGate ON # map (\<lambda>pt. Move pt F E) rest @ [LaserGate OFF]"
  by (auto simp: PolyLine_draw_on_def instructions_simps PolyLine_loop_instructions)

lemma gated_moves: "gated a (map (\<lambda>pt. Move pt F E) pts @ ys) = gated a ys"
  by (induction pts) simp_all

lemma PolyLine_draw_on_gated:
  assumes "PolyLine_draw_on cs line F E = Inr p"
  shows "well_gated (instructions p)"
proof (cases line)
  case Nil
  with assms show ?thesis by (simp add: PolyLine_draw_on_def)
next
  case (Cons p0 rest)
  with assms have "instructions p =
      Move p0 F E # LaserGate ON # map (\<lambda>pt. Move pt F E) rest @ [LaserGate OFF]"
    by (simp add: PolyLine_draw_on_instructions)
  then show ?thesis by (simp add: well_gated_def gated_moves)
qed

lemma PolyLines_loop_gated:
  "PolyLines_loop cs F E i ls q = Inr p \<Longrightarrow> well_gated (instructions q) \<Longrightarrow>
   well_gated (instructions p)"
proof (induction ls arbitrary: i q)
  case Nil
  then show ?case by simp
next
  case (Cons line rest)
  from Cons.prems(1) obtain sub where
    sub: "PolyLine_draw_on cs line F E = Inr sub" and
    rec: "PolyLines_loop cs F E (Suc i) rest
            (add_programm sub (comment (polyline_comment i) q)) = Inr p"
    by (auto simp: Let_def split: sum.splits)
  have "well_gated (instructions (add_programm sub (comment (polyline_comment i) q)))"
    using Cons.prems(2) PolyLine_draw_on_gated[OF sub]
    by (simp add: instructions_simps well_gated_def gated_append)
  with rec show ?case by (rule Cons.IH)
qed

lemma PolyLines_draw_on_gated:
  "PolyLines_draw_on cs ls F E = Inr p \<Longrightarrow> well_gated (instructions p)"
  unfolding PolyLines_draw_on_def
  by (erule PolyLines_loop_gated) (simp add: instructions_simps well_gated_Nil)

lemma Corner_loop_gated:
  "Corner_loop cs cc len width n hatch rot F E zs change_start q = Inr p \<Longrightarrow>
   well_gated (instructions q) \<Longrightarrow> well_gated (instructions p)"
proof (induction zs arbitrary: change_start q)
  case Nil
  then show ?case by simp
next
  case (Cons z zs)
  from Cons.prems(1) obtain sub where
    sub: "PolyLines_draw_on cs
            (single_layer (point_add cc (Point3D 0 0 z)) len width n hatch change_start rot) F E = Inr sub"
    and rec: "Corner_loop cs cc len width n hatch rot F E zs (\<not> change_start)
               (add_programm sub q) = Inr p"
    by (auto split: sum.splits)
  have "well_gated (instructions (add_programm sub q))"
    using Cons.prems(2) PolyLines_draw_on_gated[OF sub]
    by (simp add: instructions_simps well_gated_append)
  with rec show ?case by (rule Cons.IH)
qed

lemma Corner_draw_on_gated:
  "Corner_draw_on cs cc len width height hatch_size layer_height rotation_degree F E = Inr p \<Longrightarrow>
   well_gated (instructions p)"
  unfolding Corner_draw_on_def
  by (auto split: sum.splits prod.splits elim!: Corner_loop_gated
      simp: instructions_simps well_gated_Nil)

lemma CornerRectangle_draw_on_gated:
  assumes "CornerRectangle_draw_on cs center rw rh cl cw height layer_height hatch_size F E = Inr p"
  shows "well_gated (instructions p)"
proof -
  from assms obtain p1 p2 p3 p4 where
    c1: "Corner_draw_on cs (point_add center (Point2D (- rw / 2) (- rh / 2)))
           cl cw height hatch_size layer_height 0 F E = Inr p1" and
    c2: "Corner_draw_on cs (point_add center (Point2D (rw / 2) (- rh / 2)))
           cl cw height hatch_size layer_height 90 F E = Inr p2" and
    c3: "Corner_draw_on cs (point_add center (Point2D (rw / 2) (rh / 2)))
           cl cw height hatch_size layer_height 180 F E = Inr p3" and
    c4: "Corner_draw_on cs (point_add center (Point2D (- rw / 2) (rh / 2)))
           cl cw height hatch_size layer_height 270 F E = Inr p4" and
    p: "instructions p =
          Comment (CHR 0x0A # ''Drawing Top Left corner'') # instructions p1 @
          Comment (CHR 0x0A # ''Drawing Top Right corner'') # instructions p2 @
          Comment (CHR 0x0A # ''Drawing Bottom Right corner'') # instructions p3 @
          Comment (CHR 0x0A # ''Drawing Bottom Left corner'') # instructions p4"
    unfolding CornerRectangle_draw_on_def Let_def
    by (auto split: sum.splits simp: instructions_simps)
  have g: "gated False (instructions p1)" "gated False (instructions p2)"
    "gated False (instructions p3)" "gated False (instructions p4)"
    using Corner_draw_on_gated[OF c1] Corner_draw_on_gated[OF c2]
      Corner_draw_on_gated[OF c3] Corner_draw_on_gated[OF c4]
    by (simp_all add: well_gated_def)
  show ?thesis unfolding p well_gated_def using g by (simp add: gated_append)
qed

lemma SingleLine_draw_on_gated: "well_gated (instructions (SingleLine_draw_on cs s e F E))"
  by (simp add: SingleLine_draw_on_def instructions_simps well_gated_def)

lemma VerticalLine_draw_on_gated:
  "well_gated (instructions (VerticalLine_draw_on cs position z_min z_max F))"
  by (simp add: VerticalLine_draw_on_def Let_def instructions_simps well_gated_def)


lemma gated_trace:
  "gated a prog = (\<exists>k. gate_trace prog = (if a then [OFF] else []) @ concat (replicate k [ON, OFF]))"
proof (induction a prog rule: gated.induct)
  case (1 on)
  show ?case by (cases on) auto
next
  case (2 on rest)
  show ?case
  proof (cases on)
    case True
    then show ?thesis by simp
  next
    case False
    have "(\<exists>k. ON # gate_trace rest = concat (replicate k [ON, OFF]))
        = (\<exists>k. gate_trace rest = OFF # concat (replicate k [ON, OFF]))"
    proof
      assume "\<exists>k. ON # gate_trace rest = concat (replicate k [ON, OFF])"
      then obtain k where k: "ON # gate_trace rest = concat (replicate k [ON, OFF])" by blast
      then obtain k' where "k = Suc k'" by (cases k) auto
      with k show "\<exists>k. gate_trace rest = OFF # concat (replicate k [ON, OFF])" by auto
    next
      assume "\<exists>k. gate_trace rest = OFF # concat (replicate k [ON, OFF])"
      then obtain k where "gate_trace rest = OFF # concat (replicate k [ON, OFF])" by blast
      then have "ON # gate_trace rest = concat (replicate (Suc k) [ON, OFF])" by simp
      then show "\<exists>k. ON # gate_trace rest = concat (replicate k [ON, OFF])" by blast
    qed
    with False 2 show ?thesis by simp
  qed
next
  case (3 on rest)
  show ?case
  proof (cases on)
    case True
    with 3 show ?thesis by simp
  next
    case False
    have "\<not> (\<exists>k. OFF # gate_trace rest = concat (replicate k [ON, OFF]))"
    proof
      assume "\<exists>k. OFF # gate_trace rest = concat (replicate k [ON, OFF])"
      then obtain k where k: "OFF # gate_trace rest = concat (replicate k [ON, OFF])" by blast
      then show False by (cases k) auto
    qed
    with False show ?thesis by simp
  qed
next
  case (4 on c f e rest)
  then show ?case by simp
next
  case (5 on t rest)
  then show ?case by simp
next
  case (6 on args f e rest)
  then show ?case by simp
qed

lemma well_gated_trace:
  "well_gated prog = (\<exists>k. gate_trace prog = concat (replicate k [ON, OFF]))"
  by (simp add: well_gated_def gated_trace)


lemma PolyLines_loop_total:
  "\<forall>line\<in>set ls. line \<noteq> [] \<Longrightarrow> \<exists>p. PolyLines_loop cs F E i ls q = Inr p"
proof (induction ls arbitrary: i q)
  case Nil
  show ?case by simp
next
  case (Cons line rest)
  then obtain p0 pts where "line = p0 # pts" by (cases line) auto
  then obtain sub where "PolyLine_draw_on cs line F E = Inr sub"
    by (simp add: PolyLine_draw_on_def)
  with Cons show ?case by (simp add: Let_def)
qed

lemma single_layer_nonempty:
  "\<forall>line\<in>set (single_layer cc len width n hatch change_start rot). line \<noteq> []"
  by (auto simp: single_layer_def stroke_def Let_def)

lemma Corner_loop_total:
  "\<exists>p. Corner_loop cs cc len width n hatch rot F E zs change_start q = Inr p"
proof (induction zs arbitrary: change_start q)
  case Nil
  show ?case by simp
next
  case (Cons z zs)
  have "\<exists>sub. PolyLines_loop cs F E 0
      (single_layer (point_add cc (Point3D 0 0 z)) len width n hatch change_start rot)
      (new_program cs) = Inr sub"
    by (rule PolyLines_loop_total) (rule single_layer_nonempty)
  then obtain sub where "PolyLines_draw_on cs
      (single_layer (point_add cc (Point3D 0 0 z)) len width n hatch change_start rot) F E = Inr sub"
    unfolding PolyLines_draw_on_def ..
  with Cons show ?case by simp
qed

lemma Corner_draw_on_total:
  assumes "hatch_size \<noteq> 0" "py_round (width / hatch_size) \<noteq> 0" "layer_height \<noteq> 0"
  shows "\<exists>p. draw_on cs (Corner cc len width height hatch_size layer_height rotation_degree F E) = Inr p"
  using assms Corner_loop_total
  by (simp add: Corner_draw_on_def hatch_params_def np_arange_def Let_def)
text \<open>
  Claim C3. Whatever a shape of the library lowers to, in any coordinate system, is well
  gated: the gate instructions of the program, in order, are on, off, on, off, ..., so every
  switching on is followed by one switching off with no gate instruction between them, and
  no switching off comes without a switching on before it. \<open>Rectangle3D\<close> lowers to
  nothing.
\<close>

theorem lowering_well_gated:
  assumes "draw_on cs shape = Inr p"
  shows "well_gated (instructions p) \<and>
         (\<exists>k. gate_trace (instructions p) = concat (replicate k [ON, OFF]))"
proof -
  have "well_gated (instructions p)"
  proof (cases shape)
    case (SingleLine s e F E)
    with assms show ?thesis using SingleLine_draw_on_gated by auto
  next
    case (XLines y z ls v a)
    with assms show ?thesis by (auto intro: Lines_draw_on_gated)
  next
    case (YLines x z ls v a)
    with assms show ?thesis by (auto intro: Lines_draw_on_gated)
  next
    case (PolyLine line F E)
    with assms show ?thesis by (auto intro: PolyLine_draw_on_gated)
  next
    case (PolyLines ls F E)
    with assms show ?thesis by (auto intro: PolyLines_draw_on_gated)
  next
    case (Corner cc len width height hatch_size layer_height rotation_degree F E)
    with assms show ?thesis by (auto intro: Corner_draw_on_gated)
  next
    case (CornerRectangle center rw rh cl cw height layer_height hatch_size F E)
    with assms show ?thesis by (auto intro: CornerRectangle_draw_on_gated)
  next
    case (Rectangle3D bl w l h hs lh v)
    with assms show ?thesis by simp
  next
    case (VerticalLine position z_min z_max F)
    with assms show ?thesis using VerticalLine_draw_on_gated by auto
  qed
  then show ?thesis by (simp add: well_gated_trace)
qed

text \<open>Claim C3 at a sweep of two segments and at a hatched corner of four layers.\<close>

theorem lowering_well_gated_witness:
  "(\<exists>p. draw_on () (XLines 5 7 [(0, 1), (2, 3)] 200 1000) = Inr p \<and>
        well_gated (instructions p)) \<and>
   (\<exists>p. draw_on () (Corner (Point2D 0 0) 10 5 3 (1 / 2) (3 / 4) 0 None None) = Inr p \<and>
        well_gated (instructions p))"
proof -
  have "\<exists>p. draw_on () (XLines 5 7 [(0, 1), (2, 3)] 200 1000) = Inr p"
    by (simp add: Lines_draw_on_def Let_def)
  then obtain p where p: "draw_on () (XLines 5 7 [(0, 1), (2, 3)] 200 1000) = Inr p" ..
  have "\<exists>q. draw_on () (Corner (Point2D 0 0) 10 5 3 (1 / 2) (3 / 4) 0 None None) = Inr q"
    by (rule Corner_draw_on_total) (simp_all add: py_round_def)
  then obtain q where q: "draw_on () (Corner (Point2D 0 0) 10 5 3 (1 / 2) (3 / 4) 0 None None) = Inr q" ..
  from lowering_well_gated[OF p] lowering_well_gated[OF q] p q show ?thesis by blast
qed

section \<open>Lead-in and lead-out of a sweep\<close>

lemma Lines_draw_on_X:
  assumes "a \<noteq> 0" "ls \<noteq> []"
  shows "\<exists>p. Lines_draw_on cs X ls [(''Y'', y), (''Z'', z)] v a = Inr p \<and>
    instructions p =
      Move [(''X'', fst (ls ! 0) - direction (ls ! 0) * (v\<^sup>2 / (2 * a))), (''Y'', y), (''Z'', z)] (Some v) None #
      concat (map (sweep_block X v) ls) @
      [Move [(''X'', snd (last ls) + direction (ls ! 0) * (v\<^sup>2 / (2 * a))), (''Y'', y), (''Z'', z)] (Some v) None]"
proof -
  from assms obtain l0 rest where ls: "ls = l0 # rest" by (cases ls) simp_all
  have blocks: "(\<lambda>line. [Move [(parameter_name X, fst line)] (Some v) None, LaserGate ON,
         Move [(parameter_name X, snd line)] (Some v) None, LaserGate OFF]) = sweep_block X v"
    by (simp add: sweep_block_def fun_eq_iff)
  show ?thesis
    unfolding ls Lines_draw_on_def Let_def
    using assms(1)
    by (simp del: Lines_loop.simps last.simps
         add: dict_update_def instructions_simps Lines_loop_instructions)
qed

lemma Lines_draw_on_Y:
  assumes "a \<noteq> 0" "ls \<noteq> []"
  shows "\<exists>p. Lines_draw_on cs Y ls [(''X'', x), (''Z'', z)] v a = Inr p \<and>
    instructions p =
      Move [(''Y'', fst (ls ! 0) - direction (ls ! 0) * (v\<^sup>2 / (2 * a))), (''X'', x), (''Z'', z)] (Some v) None #
      concat (map (sweep_block Y v) ls) @
      [Move [(''Y'', snd (last ls) + direction (ls ! 0) * (v\<^sup>2 / (2 * a))), (''X'', x), (''Z'', z)] (Some v) None]"
proof -
  from assms obtain l0 rest where ls: "ls = l0 # rest" by (cases ls) simp_all
  have blocks: "(\<lambda>line. [Move [(parameter_name Y, fst line)] (Some v) None, LaserGate ON,
         Move [(parameter_name Y, snd line)] (Some v) None, LaserGate OFF]) = sweep_block Y v"
    by (simp add: sweep_block_def fun_eq_iff)
  show ?thesis
    unfolding ls Lines_draw_on_def Let_def
    using assms(1)
    by (simp del: Lines_loop.simps last.simps
         add: dict_update_def instructions_simps Lines_loop_instructions)
qed

lemma direction_unit: "fst l \<noteq> snd l \<Longrightarrow> direction l = 1 \<or> direction l = - 1"
  by (auto simp: direction_def sgn_real_def)


text \<open>
  Claim C2, as the code has it. For a sweep with a positive acceleration \<open>a\<close> whose first
  segment has a start different from its end, lowering succeeds; the first instruction is a
  move to the start of the first segment minus direction times \<open>v\<^sup>2 / (2 * a)\<close> on the swept
  axis, the last instruction is a move to the end of the last segment plus direction times
  \<open>v\<^sup>2 / (2 * a)\<close>, the direction being 1 or -1, and between them each segment gives its
  four instructions. Both moves carry the secondary position and the rate \<open>v\<close>. The lead
  distance \<open>v\<^sup>2 / (2 * a)\<close> is not negative, and positive when \<open>v\<close> is not zero; the start
  of the first segment lies this distance ahead of the first move in the direction of
  travel, and the last move lies this distance ahead of the end of the last segment: the
  first move is before the first programmed point and the last move after the last.
\<close>

theorem sweep_lead_in_out:
  assumes "0 < a" and "ls \<noteq> []" and "fst (ls ! 0) \<noteq> snd (ls ! 0)"
  shows "(direction (ls ! 0) = 1 \<or> direction (ls ! 0) = - 1) \<and>
    (\<exists>p. draw_on cs (XLines y z ls v a) = Inr p \<and>
      instructions p =
        Move [(''X'', fst (ls ! 0) - direction (ls ! 0) * (v\<^sup>2 / (2 * a))), (''Y'', y), (''Z'', z)]
          (Some v) None #
        concat (map (sweep_block X v) ls) @
        [Move [(''X'', snd (last ls) + direction (ls ! 0) * (v\<^sup>2 / (2 * a))), (''Y'', y), (''Z'', z)]
          (Some v) None]) \<and>
    (\<exists>p. draw_on cs (YLines x z ls v a) = Inr p \<and>
      instructions p =
        Move [(''Y'', fst (ls ! 0) - direction (ls ! 0) * (v\<^sup>2 / (2 * a))), (''X'', x), (''Z'', z)]
          (Some v) None #
        concat (map (sweep_block Y v) ls) @
        [Move [(''Y'', snd (last ls) + direction (ls ! 0) * (v\<^sup>2 / (2 * a))), (''X'', x), (''Z'', z)]
          (Some v) None]) \<and>
    0 \<le> v\<^sup>2 / (2 * a) \<and> (v \<noteq> 0 \<longrightarrow> 0 < v\<^sup>2 / (2 * a)) \<and>
    direction (ls ! 0) *
      (fst (ls ! 0) - (fst (ls ! 0) - direction (ls ! 0) * (v\<^sup>2 / (2 * a)))) = v\<^sup>2 / (2 * a) \<and>
    direction (ls ! 0) *
      ((snd (last ls) + direction (ls ! 0) * (v\<^sup>2 / (2 * a))) - snd (last ls)) = v\<^sup>2 / (2 * a)"
proof -
  from assms(1) have a0: "a \<noteq> 0" by simp
  have dir: "direction (ls ! 0) = 1 \<or> direction (ls ! 0) = - 1"
    using assms(3) by (rule direction_unit)
  have px: "\<exists>p. draw_on cs (XLines y z ls v a) = Inr p \<and>
      instructions p =
        Move [(''X'', fst (ls ! 0) - direction (ls ! 0) * (v\<^sup>2 / (2 * a))), (''Y'', y), (''Z'', z)]
          (Some v) None #
        concat (map (sweep_block X v) ls) @
        [Move [(''X'', snd (last ls) + direction (ls ! 0) * (v\<^sup>2 / (2 * a))), (''Y'', y), (''Z'', z)]
          (Some v) None]"
    using Lines_draw_on_X[OF a0 assms(2), of cs y z v] by simp
  have py: "\<exists>p. draw_on cs (YLines x z ls v a) = Inr p \<and>
      instructions p =
        Move [(''Y'', fst (ls ! 0) - direction (ls ! 0) * (v\<^sup>2 / (2 * a))), (''X'', x), (''Z'', z)]
          (Some v) None #
        concat (map (sweep_block Y v) ls) @
        [Move [(''Y'', snd (last ls) + direction (ls ! 0) * (v\<^sup>2 / (2 * a))), (''X'', x), (''Z'', z)]
          (Some v) None]"
    using Lines_draw_on_Y[OF a0 assms(2), of cs x z v] by simp
  have d0: "0 \<le> v\<^sup>2 / (2 * a)" using assms(1) by simp
  have d1: "v \<noteq> 0 \<longrightarrow> 0 < v\<^sup>2 / (2 * a)" using assms(1) by simp
  have b: "direction (ls ! 0) *
      (fst (ls ! 0) - (fst (ls ! 0) - direction (ls ! 0) * (v\<^sup>2 / (2 * a)))) = v\<^sup>2 / (2 * a)"
    using dir by auto
  have c: "direction (ls ! 0) *
      ((snd (last ls) + direction (ls ! 0) * (v\<^sup>2 / (2 * a))) - snd (last ls)) = v\<^sup>2 / (2 * a)"
    using dir by auto
  from dir px py d0 d1 b c show ?thesis by blast
qed

text \<open>
  Claim C2 at velocity 200 and acceleration 1000: the lead distance is 20, before 0 and after
  3 on a rising sweep, after 3 and before 2 on a falling one.
\<close>

theorem sweep_lead_in_out_witness:
  "map_sum id instructions (draw_on () (XLines 5 7 [(0, 1), (2, 3)] 200 1000)) =
     Inr [Move [(''X'', - 20), (''Y'', 5), (''Z'', 7)] (Some 200) None,
          Move [(''X'', 0)] (Some 200) None, LaserGate ON,
          Move [(''X'', 1)] (Some 200) None, LaserGate OFF,
          Move [(''X'', 2)] (Some 200) None, LaserGate ON,
          Move [(''X'', 3)] (Some 200) None, LaserGate OFF,
          Move [(''X'', 23), (''Y'', 5), (''Z'', 7)] (Some 200) None] \<and>
   map_sum id instructions (draw_on () (YLines 5 7 [(3, 2)] 200 1000)) =
     Inr [Move [(''Y'', 23), (''X'', 5), (''Z'', 7)] (Some 200) None,
          Move [(''Y'', 3)] (Some 200) None, LaserGate ON,
          Move [(''Y'', 2)] (Some 200) None, LaserGate OFF,
          Move [(''Y'', - 18), (''X'', 5), (''Z'', 7)] (Some 200) None] \<and>
   (0 :: real) < 200\<^sup>2 / (2 * 1000) \<and> (200 :: real)\<^sup>2 / (2 * 1000) = 20"
proof -
  have a: "(0 :: real) < 1000" by simp
  have n1: "[(0, 1), (2, 3)] \<noteq> ([] :: (real \<times> real) list)" by simp
  have n2: "[(3, 2)] \<noteq> ([] :: (real \<times> real) list)" by simp
  have s1: "fst ([(0, 1), (2, 3)] ! 0) \<noteq> (snd ([(0, 1), (2, 3)] ! 0) :: real)" by simp
  have s2: "fst ([(3, 2)] ! 0) \<noteq> (snd ([(3, 2)] ! 0) :: real)" by simp
  from sweep_lead_in_out[OF a n1 s1, where cs = "()" and y = 5 and z = 7 and v = 200 and x = 0]
    sweep_lead_in_out[OF a n2 s2, where cs = "()" and y = 0 and z = 7 and v = 200 and x = 5]
  show ?thesis by (auto simp: direction_def sweep_block_def)
qed

text \<open>
  Claim C2 as stated fails on a sweep with a negative acceleration: at velocity 200 and
  acceleration -1000 the list \<open>[(0, 1)]\<close> is accepted, and the first move goes to 20, which
  is after the first programmed point 0 of the rising sweep, and the last move to -19, which
  is before the last programmed point 1.
\<close>

theorem sweep_negative_acceleration_counterexample:
  "XLines_init 5 7 [(0, 1)] 200 (- 1000) = Inr (XLines 5 7 [(0, 1)] 200 (- 1000)) \<and>
   direction (0, 1) = 1 \<and>
   map_sum id instructions (draw_on () (XLines 5 7 [(0, 1)] 200 (- 1000))) =
     Inr [Move [(''X'', 20), (''Y'', 5), (''Z'', 7)] (Some 200) None,
          Move [(''X'', 0)] (Some 200) None, LaserGate ON,
          Move [(''X'', 1)] (Some 200) None, LaserGate OFF,
          Move [(''X'', - 19), (''Y'', 5), (''Z'', 7)] (Some 200) None]"
  using Lines_draw_on_X[of "- 1000" "[(0, 1)]" "()" 5 7 200]
  by (auto simp: direction_def sweep_block_def validate_lines_def XLines_init_def)

text \<open>
  A segment of length zero is left out above. The list \<open>[(1, 1)]\<close> is accepted, its
  direction is 0, which \<open>_direction\<close> declares it never is, and the first and the last move
  go to the segment itself.
\<close>

lemma sweep_zero_length_segment:
  "XLines_init 5 7 [(1, 1)] 200 1000 = Inr (XLines 5 7 [(1, 1)] 200 1000) \<and>
   direction (1, 1) = 0 \<and>
   map_sum id instructions (draw_on () (XLines 5 7 [(1, 1)] 200 1000)) =
     Inr [Move [(''X'', 1), (''Y'', 5), (''Z'', 7)] (Some 200) None,
          Move [(''X'', 1)] (Some 200) None, LaserGate ON,
          Move [(''X'', 1)] (Some 200) None, LaserGate OFF,
          Move [(''X'', 1), (''Y'', 5), (''Z'', 7)] (Some 200) None]"
  using Lines_draw_on_X[of 1000 "[(1, 1)]" "()" 5 7 200]
  by (auto simp: direction_def sweep_block_def validate_lines_def XLines_init_def)

section \<open>Hatched corners: strokes, layers and the pitch division\<close>

lemma py_round_bounds: "\<lfloor>x\<rfloor> \<le> py_round x" "py_round x \<le> \<lfloor>x\<rfloor> + 1"
  by (simp_all add: py_round_def Let_def)

lemma py_round_zero_iff: "(py_round x = 0) = (\<bar>x\<bar> \<le> 1 / 2)"
proof -
  have fl: "of_int \<lfloor>x\<rfloor> \<le> x" "x < of_int \<lfloor>x\<rfloor> + 1" by linarith+
  consider "\<lfloor>x\<rfloor> \<le> - 2" | "\<lfloor>x\<rfloor> = - 1" | "\<lfloor>x\<rfloor> = 0" | "\<lfloor>x\<rfloor> \<ge> 1" by linarith
  then show ?thesis
  proof cases
    case 1
    then have "py_round x \<noteq> 0" using py_round_bounds(2)[of x] by linarith
    moreover have "x < - 1" using 1 fl(2) by linarith
    ultimately show ?thesis by simp
  next
    case 2
    with fl show ?thesis by (auto simp: py_round_def Let_def)
  next
    case 3
    with fl show ?thesis by (auto simp: py_round_def Let_def)
  next
    case 4
    then have "py_round x \<noteq> 0" using py_round_bounds(1)[of x] by linarith
    moreover have "1 \<le> x" using 4 fl(1) by linarith
    ultimately show ?thesis by simp
  qed
qed

lemma PolyLine_draw_on_nonempty:
  "line \<noteq> [] \<Longrightarrow>
   \<exists>p. PolyLine_draw_on cs line F E = Inr p \<and> instructions p = PolyLine_instructions F E line"
  by (cases line)
    (simp_all add: PolyLine_draw_on_def PolyLine_instructions_def instructions_simps
      PolyLine_loop_instructions)

lemma PolyLines_loop_instructions:
  assumes "\<forall>line\<in>set ls. line \<noteq> []"
  shows "\<exists>p. PolyLines_loop cs F E i ls q = Inr p \<and>
    instructions p = instructions q @
      concat (map (\<lambda>il. Comment (polyline_comment (fst il)) # PolyLine_instructions F E (snd il))
                (enumerate i ls))"
  using assms
proof (induction ls arbitrary: i q)
  case Nil
  show ?case by simp
next
  case (Cons line rest)
  from Cons.prems have "line \<noteq> []" by simp
  from PolyLine_draw_on_nonempty[OF this, of cs F E] obtain sub where
    sub: "PolyLine_draw_on cs line F E = Inr sub"
      "instructions sub = PolyLine_instructions F E line" by blast
  from Cons.prems have "\<forall>line\<in>set rest. line \<noteq> []" by simp
  from Cons.IH[OF this, of "Suc i" "add_programm sub (comment (polyline_comment i) q)"]
  obtain p where p: "PolyLines_loop cs F E (Suc i) rest
        (add_programm sub (comment (polyline_comment i) q)) = Inr p"
    "instructions p = instructions (add_programm sub (comment (polyline_comment i) q)) @
      concat (map (\<lambda>il. Comment (polyline_comment (fst il)) # PolyLine_instructions F E (snd il))
                (enumerate (Suc i) rest))" by blast
  show ?case using sub p by (simp add: Let_def instructions_simps)
qed

lemma PolyLines_draw_on_instructions:
  assumes "\<forall>line\<in>set ls. line \<noteq> []"
  shows "\<exists>p. PolyLines_draw_on cs ls F E = Inr p \<and>
    instructions p = PolyLines_instructions F E ls"
  using PolyLines_loop_instructions[OF assms, of cs F E 0 "new_program cs"]
  by (simp add: PolyLines_draw_on_def PolyLines_instructions_def instructions_simps)

lemma Corner_loop_instructions:
  "\<exists>p. Corner_loop cs cc len w n hc rot F E (map (\<lambda>k. of_nat k * L) [a..<b]) (odd a) q = Inr p \<and>
     instructions p = instructions q @
       concat (map (\<lambda>k. PolyLines_instructions F E
                 (single_layer (point_add cc (Point3D 0 0 (of_nat k * L))) len w n hc (odd k) rot))
               [a..<b])"
proof (induction "b - a" arbitrary: a q)
  case 0
  then show ?case by simp
next
  case (Suc m)
  then have ab: "a < b" and m: "m = b - Suc a" by simp_all
  from PolyLines_draw_on_instructions[OF single_layer_nonempty,
      of cs "point_add cc (Point3D 0 0 (of_nat a * L))" len w n hc "odd a" rot F E]
  obtain sub where sub: "PolyLines_draw_on cs
        (single_layer (point_add cc (Point3D 0 0 (of_nat a * L))) len w n hc (odd a) rot) F E = Inr sub"
    "instructions sub = PolyLines_instructions F E
        (single_layer (point_add cc (Point3D 0 0 (of_nat a * L))) len w n hc (odd a) rot)"
    by blast
  from Suc.hyps(1)[OF m, of "add_programm sub q"]
  obtain p where p: "Corner_loop cs cc len w n hc rot F E (map (\<lambda>k. of_nat k * L) [Suc a..<b])
        (odd (Suc a)) (add_programm sub q) = Inr p"
    "instructions p = instructions (add_programm sub q) @
       concat (map (\<lambda>k. PolyLines_instructions F E
                 (single_layer (point_add cc (Point3D 0 0 (of_nat k * L))) len w n hc (odd k) rot))
               [Suc a..<b])" by blast
  show ?case using ab sub p by (simp add: upt_conv_Cons instructions_simps)
qed

lemma Corner_draw_on_instructions:
  assumes "hatch_params w h = Inr (n, hc)" and "L \<noteq> 0"
  shows "\<exists>p. draw_on cs (Corner cc len w H h L rotation_degree F E) = Inr p \<and>
     instructions p =
       concat (map (\<lambda>k. PolyLines_instructions F E
                 (single_layer (point_add cc (Point3D 0 0 (of_nat k * L))) len w n hc (odd k)
                    (rotation_degree / 180 * pi)))
               [0..<nat \<lceil>H / L\<rceil>])"
  using assms
    Corner_loop_instructions[of cs cc len w n hc "rotation_degree / 180 * pi" F E L 0
      "nat \<lceil>H / L\<rceil>" "new_program cs"]
  by (simp add: Corner_draw_on_def np_arange_def instructions_simps)

lemma hatch_params_ok:
  assumes "h \<noteq> 0" "py_round (w / h) \<noteq> 0"
  shows "hatch_params w h = Inr (py_round (w / h) + 1, w / of_int (py_round (w / h)))"
  using assms by (simp add: hatch_params_def Let_def)

lemma hatch_params_zero:
  "(hatch_params w h = Inl ZeroDivisionError) = (h = 0 \<or> py_round (w / h) = 0)"
  by (simp add: hatch_params_def Let_def)


lemma stroke_order:
  "stroke cc len w n hc (odd k) rot i =
     (if (i + k) mod 2 = 1 then rev (stroke_points cc len w n hc rot i)
      else stroke_points cc len w n hc rot i)"
proof -
  have "((i + (if odd k then 1 else 0)) mod 2 = 0) = ((i + k) mod 2 \<noteq> 1)"
    by (cases "odd k") (presburger+)
  then show ?thesis by (simp add: stroke_def stroke_points_def Let_def)
qed

lemma center_diagonal_pitch:
  "center_diagonal n hc i - center_diagonal n hc (Suc i) = hc"
  by (simp add: center_diagonal_def algebra_simps)

text \<open>
  Claim C4. With \<open>round(w / h) \<ge> 1\<close>, the first two lines of \<open>Corner.draw_on\<close> give
  \<open>n = round(w / h) + 1\<close> strokes and the pitch \<open>w / (n - 1)\<close>; lowering with a non-zero
  layer height emits, for the layers \<open>k = 0, 1, ...\<close> in order, the strokes of
  \<open>single_layer\<close> called with \<open>change_start\<close> true exactly when \<open>k\<close> is odd. Such a
  layer has \<open>n\<close> strokes of three points; stroke \<open>i\<close> is \<open>p3, p2, p1\<close> when
  \<open>(i + k) mod 2 = 1\<close> and \<open>p1, p2, p3\<close> otherwise; consecutive strokes lie one pitch
  apart.
\<close>

theorem hatched_corner_serpentine:
  assumes "1 \<le> py_round (w / h)" and "n = py_round (w / h) + 1" and "hc = w / of_int (n - 1)"
  shows "hatch_params w h = Inr (n, hc) \<and>
    (L \<noteq> 0 \<longrightarrow>
      (\<exists>p. draw_on cs (Corner cc len w H h L rotation_degree F E) = Inr p \<and>
        instructions p =
          concat (map (\<lambda>k. PolyLines_instructions F E
                    (single_layer (point_add cc (Point3D 0 0 (of_nat k * L))) len w n hc (odd k)
                       (rotation_degree / 180 * pi)))
                  [0..<nat \<lceil>H / L\<rceil>]))) \<and>
    length (single_layer c len w n hc (odd k) rot) = nat n \<and>
    (\<forall>i<nat n.
       single_layer c len w n hc (odd k) rot ! i =
         (if (i + k) mod 2 = 1 then rev (stroke_points c len w n hc rot i)
          else stroke_points c len w n hc rot i) \<and>
       length (stroke_points c len w n hc rot i) = 3 \<and>
       center_diagonal n hc i - center_diagonal n hc (Suc i) = w / of_int (n - 1))"
proof -
  from assms(1) have h0: "h \<noteq> 0" by (auto simp: py_round_def)
  from assms(1) have r0: "py_round (w / h) \<noteq> 0" by simp
  have hp: "hatch_params w h = Inr (n, hc)"
    using hatch_params_ok[OF h0 r0] assms(2,3) by simp
  have dr: "L \<noteq> 0 \<longrightarrow>
      (\<exists>p. draw_on cs (Corner cc len w H h L rotation_degree F E) = Inr p \<and>
        instructions p =
          concat (map (\<lambda>k. PolyLines_instructions F E
                    (single_layer (point_add cc (Point3D 0 0 (of_nat k * L))) len w n hc (odd k)
                       (rotation_degree / 180 * pi)))
                  [0..<nat \<lceil>H / L\<rceil>]))"
  proof
    assume "L \<noteq> 0"
    from Corner_draw_on_instructions[OF hp this]
    show "\<exists>p. draw_on cs (Corner cc len w H h L rotation_degree F E) = Inr p \<and>
        instructions p =
          concat (map (\<lambda>k. PolyLines_instructions F E
                    (single_layer (point_add cc (Point3D 0 0 (of_nat k * L))) len w n hc (odd k)
                       (rotation_degree / 180 * pi)))
                  [0..<nat \<lceil>H / L\<rceil>])" .
  qed
  have len: "length (single_layer c len w n hc (odd k) rot) = nat n"
    by (simp add: single_layer_def)
  have strokes: "\<forall>i<nat n.
       single_layer c len w n hc (odd k) rot ! i =
         (if (i + k) mod 2 = 1 then rev (stroke_points c len w n hc rot i)
          else stroke_points c len w n hc rot i) \<and>
       length (stroke_points c len w n hc rot i) = 3 \<and>
       center_diagonal n hc i - center_diagonal n hc (Suc i) = w / of_int (n - 1)"
  proof (intro allI impI conjI)
    fix i assume "i < nat n"
    then show "single_layer c len w n hc (odd k) rot ! i =
         (if (i + k) mod 2 = 1 then rev (stroke_points c len w n hc rot i)
          else stroke_points c len w n hc rot i)"
      unfolding single_layer_def by (simp add: stroke_order del: upt.simps)
    show "length (stroke_points c len w n hc rot i) = 3"
      by (simp add: stroke_points_def Let_def)
    show "center_diagonal n hc i - center_diagonal n hc (Suc i) = w / of_int (n - 1)"
      using center_diagonal_pitch[of n hc i] assms(3) by simp
  qed
  from hp dr len strokes show ?thesis by blast
qed

text \<open>
  Claim C4 at width 5 and hatch size 0.5: 11 strokes at pitch 0.5; in layer 1 stroke 0 is
  reversed and stroke 1 is not.
\<close>

theorem hatched_corner_serpentine_witness:
  "hatch_params 5 (1 / 2) = Inr (11, 1 / 2) \<and>
   (\<exists>p. draw_on () (Corner (Point2D 0 0) 10 5 3 (1 / 2) (3 / 4) 0 None None) = Inr p \<and>
     instructions p =
       concat (map (\<lambda>k. PolyLines_instructions None None
                 (single_layer (point_add (Point2D 0 0) (Point3D 0 0 (of_nat k * (3 / 4))))
                    10 5 11 (1 / 2) (odd k) (0 / 180 * pi)))
               [0..<nat \<lceil>3 / (3 / 4) :: real\<rceil>])) \<and>
   length (single_layer (Point2D 0 0) 10 5 11 (1 / 2) True 0) = 11 \<and>
   single_layer (Point2D 0 0) 10 5 11 (1 / 2) True 0 ! 0 =
     rev (stroke_points (Point2D 0 0) 10 5 11 (1 / 2) 0 0) \<and>
   single_layer (Point2D 0 0) 10 5 11 (1 / 2) True 0 ! 1 =
     stroke_points (Point2D 0 0) 10 5 11 (1 / 2) 0 1 \<and>
   center_diagonal 11 (1 / 2) 0 - center_diagonal 11 (1 / 2) 1 = 1 / 2"
proof -
  have r: "py_round (5 / (1 / 2)) = 10" by (simp add: py_round_def Let_def)
  have a1: "1 \<le> py_round (5 / (1 / 2))" using r by simp
  have a2: "(11 :: int) = py_round (5 / (1 / 2)) + 1" using r by simp
  have a3: "(1 / 2 :: real) = 5 / of_int (11 - 1)" by simp
  have l: "(3 / 4 :: real) \<noteq> 0" by simp
  from hatched_corner_serpentine[OF a1 a2 a3, where c = "Point2D 0 0" and len = 10 and k = 1
      and rot = 0 and L = "3 / 4" and H = 3 and cs = "()" and cc = "Point2D 0 0"
      and rotation_degree = 0 and F = None and E = None]
  have f: "hatch_params 5 (1 / 2) = Inr (11, 1 / 2)"
    and d: "\<exists>p. draw_on () (Corner (Point2D 0 0) 10 5 3 (1 / 2) (3 / 4) 0 None None) = Inr p \<and>
     instructions p =
       concat (map (\<lambda>k. PolyLines_instructions None None
                 (single_layer (point_add (Point2D 0 0) (Point3D 0 0 (of_nat k * (3 / 4))))
                    10 5 11 (1 / 2) (odd k) (0 / 180 * pi)))
               [0..<nat \<lceil>3 / (3 / 4) :: real\<rceil>])"
    and n: "length (single_layer (Point2D 0 0) 10 5 11 (1 / 2) (odd (1::nat)) 0) = nat 11"
    and st: "\<forall>i<nat 11.
       single_layer (Point2D 0 0) 10 5 11 (1 / 2) (odd (1::nat)) 0 ! i =
         (if (i + 1) mod 2 = 1 then rev (stroke_points (Point2D 0 0) 10 5 11 (1 / 2) 0 i)
          else stroke_points (Point2D 0 0) 10 5 11 (1 / 2) 0 i) \<and>
       length (stroke_points (Point2D 0 0) 10 5 11 (1 / 2) 0 i) = 3 \<and>
       center_diagonal 11 (1 / 2) i - center_diagonal 11 (1 / 2) (Suc i) = 5 / of_int (11 - 1)"
    using l by blast+
  from st[rule_format, of 0] have s0: "single_layer (Point2D 0 0) 10 5 11 (1 / 2) True 0 ! 0 =
     rev (stroke_points (Point2D 0 0) 10 5 11 (1 / 2) 0 0)"
    and c0: "center_diagonal 11 (1 / 2) 0 - center_diagonal 11 (1 / 2) 1 = 1 / 2"
    by simp_all
  from st[rule_format, of 1] have s1: "single_layer (Point2D 0 0) 10 5 11 (1 / 2) True 0 ! 1 =
     stroke_points (Point2D 0 0) 10 5 11 (1 / 2) 0 1"
    by simp
  from f d n s0 s1 c0 show ?thesis by simp
qed


text \<open>
  Claim C5, as the code has it. For a positive height \<open>H\<close> and layer height \<open>L\<close>, and a
  hatch size and width for which the pitch division does not fail (\<open>h \<noteq> 0\<close> and
  \<open>round(w / h) \<noteq> 0\<close>), the layer heights are \<open>k * L\<close> for \<open>k = 0, ..., ceil(H / L) - 1\<close>,
  and lowering emits one layer for each, in this order, the corner centre raised by
  \<open>k * L\<close>.
\<close>

theorem corner_layer_count:
  assumes "0 < H" and "0 < L" and "h \<noteq> 0" and "py_round (w / h) \<noteq> 0"
  shows "np_arange 0 H L = Inr (map (\<lambda>k. of_nat k * L) [0..<nat \<lceil>H / L\<rceil>]) \<and>
    int (length (map (\<lambda>k. of_nat k * L) [0..<nat \<lceil>H / L\<rceil>])) = \<lceil>H / L\<rceil> \<and>
    (\<exists>p. draw_on cs (Corner cc len w H h L rotation_degree F E) = Inr p \<and>
      instructions p =
        concat (map (\<lambda>k. PolyLines_instructions F E
                  (single_layer (point_add cc (Point3D 0 0 (of_nat k * L))) len w
                     (py_round (w / h) + 1) (w / of_int (py_round (w / h))) (odd k)
                     (rotation_degree / 180 * pi)))
                [0..<nat \<lceil>H / L\<rceil>]))"
proof -
  from assms(2) have l0: "L \<noteq> 0" by simp
  have ar: "np_arange 0 H L = Inr (map (\<lambda>k. of_nat k * L) [0..<nat \<lceil>H / L\<rceil>])"
    using l0 by (simp add: np_arange_def)
  from assms(1,2) have "0 < H / L" by simp
  then have "0 < \<lceil>H / L\<rceil>" by linarith
  then have cnt: "int (length (map (\<lambda>k. of_nat k * L) [0..<nat \<lceil>H / L\<rceil>])) = \<lceil>H / L\<rceil>"
    by simp
  have dr: "\<exists>p. draw_on cs (Corner cc len w H h L rotation_degree F E) = Inr p \<and>
      instructions p =
        concat (map (\<lambda>k. PolyLines_instructions F E
                  (single_layer (point_add cc (Point3D 0 0 (of_nat k * L))) len w
                     (py_round (w / h) + 1) (w / of_int (py_round (w / h))) (odd k)
                     (rotation_degree / 180 * pi)))
                [0..<nat \<lceil>H / L\<rceil>])"
    by (rule Corner_draw_on_instructions[OF hatch_params_ok[OF assms(3,4)] l0])
  from ar cnt dr show ?thesis by blast
qed

text \<open>
  Claim C5 at height 3 and layer height 0.75: four layers, at z = 0, 0.75, 1.5 and 2.25.
\<close>

theorem corner_layer_count_witness:
  "np_arange 0 3 (3 / 4) = Inr [0, 3 / 4, 3 / 2, 9 / 4] \<and>
   map_sum id instructions (draw_on () (Corner (Point2D 0 0) 10 5 3 (1 / 2) (3 / 4) 0 None None)) =
     Inr (PolyLines_instructions None None (single_layer (Point3D 0 0 0) 10 5 11 (1 / 2) False 0) @
          PolyLines_instructions None None (single_layer (Point3D 0 0 (3 / 4)) 10 5 11 (1 / 2) True 0) @
          PolyLines_instructions None None (single_layer (Point3D 0 0 (3 / 2)) 10 5 11 (1 / 2) False 0) @
          PolyLines_instructions None None (single_layer (Point3D 0 0 (9 / 4)) 10 5 11 (1 / 2) True 0))"
proof -
  have r: "py_round (5 / (1 / 2)) = 10" by (simp add: py_round_def Let_def)
  have a: "(0 :: real) < 3" "(0 :: real) < 3 / 4" "(1 / 2 :: real) \<noteq> 0"
    "py_round (5 / (1 / 2)) \<noteq> 0" using r by simp_all
  have c: "nat \<lceil>3 / (3 / 4) :: real\<rceil> = 4" by simp
  from corner_layer_count[OF a, of "()" "Point2D 0 0" 10 0 None None]
  show ?thesis unfolding r c by (auto simp: upt_rec)
qed

text \<open>
  Claim C5 as stated fails on a corner of positive height and layer height whose width is
  less than half its hatch size: lowering raises before any layer.
\<close>

theorem corner_layer_count_counterexample:
  "(0 :: real) < 3 \<and> (0 :: real) < 3 / 4 \<and>
   draw_on () (Corner (Point2D 0 0) 10 (1 / 10) 3 (1 / 2) (3 / 4) 0 None None) = Inl ZeroDivisionError"
  by (simp add: Corner_draw_on_def hatch_params_def py_round_def Let_def)


text \<open>
  Claim C10. The pitch \<open>w / (n - 1)\<close> with \<open>n = round(w / h) + 1\<close> needs
  \<open>round(w / h) \<ge> 1\<close>: for every corner with a positive height whose quotient \<open>w / h\<close> is
  below 0.5 and whose \<open>n\<close> is 1, the pitch division and with it lowering raise the division
  by zero instead of giving a program; \<open>n\<close> is 1 for every quotient from 0, and even from
  -0.5, up to 0.5. With \<open>round(w / h) \<ge> 1\<close> the division succeeds, and lowering returns a
  program when the layer height is not zero. With a non-zero hatch size the division raises
  exactly when \<open>-1/2 \<le> w / h \<le> 1/2\<close>, whatever the height.
\<close>

theorem hatch_pitch_division_guard:
  assumes "h \<noteq> 0"
  shows "(0 < H \<and> w / h < 1 / 2 \<and> py_round (w / h) + 1 = 1 \<longrightarrow>
       hatch_params w h = Inl ZeroDivisionError \<and>
       draw_on cs (Corner cc len w H h L rotation_degree F E) = Inl ZeroDivisionError) \<and>
    (- 1 / 2 \<le> w / h \<and> w / h < 1 / 2 \<longrightarrow> py_round (w / h) + 1 = 1) \<and>
    ((hatch_params w h = Inl ZeroDivisionError) = (\<bar>w / h\<bar> \<le> 1 / 2)) \<and>
    (\<bar>w / h\<bar> \<le> 1 / 2 \<longrightarrow>
       draw_on cs (Corner cc len w H h L rotation_degree F E) = Inl ZeroDivisionError) \<and>
    (1 \<le> py_round (w / h) \<longrightarrow>
       hatch_params w h = Inr (py_round (w / h) + 1, w / of_int (py_round (w / h))) \<and>
       (L \<noteq> 0 \<longrightarrow> (\<exists>p. draw_on cs (Corner cc len w H h L rotation_degree F E) = Inr p)))"
proof -
  have raise: "hatch_params w h = Inl ZeroDivisionError \<and>
      draw_on cs (Corner cc len w H h L rotation_degree F E) = Inl ZeroDivisionError"
    if "py_round (w / h) = 0"
  proof -
    from that have "hatch_params w h = Inl ZeroDivisionError" by (simp add: hatch_params_zero)
    then show ?thesis by (simp add: Corner_draw_on_def)
  qed
  have a: "0 < H \<and> w / h < 1 / 2 \<and> py_round (w / h) + 1 = 1 \<longrightarrow>
       hatch_params w h = Inl ZeroDivisionError \<and>
       draw_on cs (Corner cc len w H h L rotation_degree F E) = Inl ZeroDivisionError"
    using raise by simp
  have b: "- 1 / 2 \<le> w / h \<and> w / h < 1 / 2 \<longrightarrow> py_round (w / h) + 1 = 1"
  proof
    assume q: "- 1 / 2 \<le> w / h \<and> w / h < 1 / 2"
    then have "w / h \<le> 1 / 2" "- (w / h) \<le> 1 / 2" by linarith+
    then have "\<bar>w / h\<bar> \<le> 1 / 2" by (rule abs_leI)
    then have "py_round (w / h) = 0" by (simp only: py_round_zero_iff)
    then show "py_round (w / h) + 1 = 1" by simp
  qed
  have c: "(hatch_params w h = Inl ZeroDivisionError) = (\<bar>w / h\<bar> \<le> 1 / 2)"
    using assms by (simp add: hatch_params_zero py_round_zero_iff)
  have d: "\<bar>w / h\<bar> \<le> 1 / 2 \<longrightarrow>
       draw_on cs (Corner cc len w H h L rotation_degree F E) = Inl ZeroDivisionError"
    using raise by (simp add: py_round_zero_iff)
  have e: "1 \<le> py_round (w / h) \<longrightarrow>
       hatch_params w h = Inr (py_round (w / h) + 1, w / of_int (py_round (w / h))) \<and>
       (L \<noteq> 0 \<longrightarrow> (\<exists>p. draw_on cs (Corner cc len w H h L rotation_degree F E) = Inr p))"
  proof (intro impI conjI)
    assume "1 \<le> py_round (w / h)"
    then have "py_round (w / h) \<noteq> 0" by simp
    then show "hatch_params w h = Inr (py_round (w / h) + 1, w / of_int (py_round (w / h)))"
      using assms by (rule hatch_params_ok[rotated])
  next
    assume r: "1 \<le> py_round (w / h)" and l: "L \<noteq> 0"
    from r have "py_round (w / h) \<noteq> 0" by simp
    with assms l show "\<exists>p. draw_on cs (Corner cc len w H h L rotation_degree F E) = Inr p"
      by (intro Corner_draw_on_total)
  qed
  from a b c d e show ?thesis by blast
qed

text \<open>
  Claim C10 at width 0.2 and hatch size 0.5, where the height 3 is positive, the quotient 0.4
  is below 0.5, \<open>n\<close> is 1 and lowering raises, and at width 4, where \<open>round(w / h)\<close> is 8
  and it does not.
\<close>

theorem hatch_pitch_division_guard_witness:
  "(0 :: real) < 3 \<and> (1 / 5) / (1 / 2) < (1 / 2 :: real) \<and> py_round ((1 / 5) / (1 / 2)) + 1 = 1 \<and>
   hatch_params (1 / 5) (1 / 2) = Inl ZeroDivisionError \<and>
   draw_on () (Corner (Point2D 0 0) 10 (1 / 5) 3 (1 / 2) (3 / 4) 0 None None) = Inl ZeroDivisionError \<and>
   1 \<le> py_round (4 / (1 / 2)) \<and>
   hatch_params 4 (1 / 2) = Inr (9, 1 / 2) \<and>
   (\<exists>p. draw_on () (Corner (Point2D 0 0) 10 4 3 (1 / 2) (3 / 4) 0 None None) = Inr p)"
proof -
  have h: "(1 / 2 :: real) \<noteq> 0" by simp
  have r0: "py_round ((1 / 5) / (1 / 2)) = 0" by (simp add: py_round_def Let_def)
  have r: "py_round (4 / (1 / 2)) = 8" by (simp add: py_round_def Let_def)
  have q: "(0 :: real) < 3 \<and> (1 / 5) / (1 / 2) < (1 / 2 :: real) \<and>
      py_round ((1 / 5) / (1 / 2)) + 1 = 1"
    using r0 by simp
  from hatch_pitch_division_guard[OF h, where w = "1 / 5" and cs = "()" and cc = "Point2D 0 0"
      and len = 10 and H = 3 and L = "3 / 4" and rotation_degree = 0 and F = None and E = None]
  have a: "hatch_params (1 / 5) (1 / 2) = Inl ZeroDivisionError \<and>
      draw_on () (Corner (Point2D 0 0) 10 (1 / 5) 3 (1 / 2) (3 / 4) 0 None None)
        = Inl ZeroDivisionError"
    using q by blast
  have r1: "1 \<le> py_round (4 / (1 / 2))" using r by simp
  have l: "(3 / 4 :: real) \<noteq> 0" by simp
  from hatch_pitch_division_guard[OF h, where w = 4 and cs = "()" and cc = "Point2D 0 0"
      and len = 10 and H = 3 and L = "3 / 4" and rotation_degree = 0 and F = None and E = None]
  have b: "hatch_params 4 (1 / 2) = Inr (py_round (4 / (1 / 2)) + 1, 4 / of_int (py_round (4 / (1 / 2)))) \<and>
      (\<exists>p. draw_on () (Corner (Point2D 0 0) 10 4 3 (1 / 2) (3 / 4) 0 None None) = Inr p)"
    using r1 l by blast
  then have b': "hatch_params 4 (1 / 2) = Inr (9, 1 / 2) \<and>
      (\<exists>p. draw_on () (Corner (Point2D 0 0) 10 4 3 (1 / 2) (3 / 4) 0 None None) = Inr p)"
    unfolding r by simp
  from q a r1 b' show ?thesis by blast
qed

text \<open>
  A quotient below -0.5 needs a negative width or hatch size. It rounds to a negative
  number, so \<open>n\<close> is not 1 and nothing is divided by zero: at width -1 and hatch size 0.5,
  \<open>n\<close> is -1, no stroke is drawn, and lowering returns the empty program.
\<close>

lemma negative_width_empty_program:
  "hatch_params (- 1) (1 / 2) = Inr (- 1, 1 / 2) \<and>
   map_sum id instructions
     (draw_on () (Corner (Point2D 0 0) 10 (- 1) 3 (1 / 2) (3 / 4) 0 None None)) = Inr []"
proof -
  have hp: "hatch_params (- 1) (1 / 2) = Inr (- 1, 1 / 2)"
    by (simp add: hatch_params_def py_round_def Let_def)
  have l: "(3 / 4 :: real) \<noteq> 0" by simp
  from Corner_draw_on_instructions[OF hp l, of "()" "Point2D 0 0" 10 3 0 None None]
  have "map_sum id instructions
     (draw_on () (Corner (Point2D 0 0) 10 (- 1) 3 (1 / 2) (3 / 4) 0 None None)) = Inr []"
    by (auto simp: single_layer_def PolyLines_instructions_def)
  with hp show ?thesis by simp
qed

section \<open>The centre point of a polyline\<close>

lemma key_comprehension_Cons: "\<exists>e. key_comprehension (key # rest) = Inl e"
  by (simp split: list.splits)

lemma center_of_values_raises: "\<exists>e. center_of_values values = Inl e"
proof (cases "map fst values")
  case Nil
  then show ?thesis by (simp add: center_of_values_def point_of_center_def)
next
  case (Cons key rest)
  from key_comprehension_Cons[of key rest] obtain e where
    "key_comprehension (key # rest) = Inl e" ..
  with Cons show ?thesis by (simp add: center_of_values_def)
qed

lemma PolyLine_center_point_raises: "\<exists>e. PolyLine_center_point line = Inl e"
  using center_of_values_raises
  by (auto simp: PolyLine_center_point_def split: list.splits sum.splits)

lemma PolyLines_center_point_raises: "\<exists>e. PolyLines_center_point ls = Inl e"
  using center_of_values_raises
  by (auto simp: PolyLines_center_point_def split: list.splits sum.splits)

text \<open>
  Claim C9 against the code. On the line \<open>[{X: 0, Y: 0}, {X: 2, Y: 4}]\<close> the centre point
  is to be \<open>(1, 2)\<close>, the midpoint of the bounding box; \<open>PolyLine.center_point\<close> and
  \<open>PolyLines.center_point\<close> raise instead, at the unpacking of the key \<open>X\<close>, and they
  return a point on no input at all.
\<close>

theorem center_point_unpack_error:
  "PolyLine_center_point [[(''X'', 0), (''Y'', 0)], [(''X'', 2), (''Y'', 4)]] = Inl UnpackError \<and>
   PolyLines_center_point [[[(''X'', 0), (''Y'', 0)], [(''X'', 2), (''Y'', 4)]]] = Inl UnpackError \<and>
   bounding_box_center [[(''X'', 0), (''Y'', 0)], [(''X'', 2), (''Y'', 4)]] ''X'' = Some 1 \<and>
   bounding_box_center [[(''X'', 0), (''Y'', 0)], [(''X'', 2), (''Y'', 4)]] ''Y'' = Some 2 \<and>
   PolyLine_center_point line \<noteq> Inr pt \<and> PolyLines_center_point ls \<noteq> Inr pt"
proof -
  have a: "PolyLine_center_point [[(''X'', 0), (''Y'', 0)], [(''X'', 2), (''Y'', 4)]] = Inl UnpackError"
    by (simp add: PolyLine_center_point_def center_of_values_def)
  have b: "PolyLines_center_point [[[(''X'', 0), (''Y'', 0)], [(''X'', 2), (''Y'', 4)]]] = Inl UnpackError"
    by (simp add: PolyLines_center_point_def center_of_values_def)
  have c: "bounding_box_center [[(''X'', 0), (''Y'', 0)], [(''X'', 2), (''Y'', 4)]] ''X'' = Some 1"
    "bounding_box_center [[(''X'', 0), (''Y'', 0)], [(''X'', 2), (''Y'', 4)]] ''Y'' = Some 2"
    by (simp_all add: bounding_box_center_def List.map_filter_simps)
  have d: "PolyLine_center_point line \<noteq> Inr pt" "PolyLines_center_point ls \<noteq> Inr pt"
    using PolyLine_center_point_raises[of line] PolyLines_center_point_raises[of ls] by auto
  from a b c d show ?thesis by simp
qed

section \<open>The azimuth of a fitted plane\<close>

lemma py_mod_range:
  assumes "0 < m"
  shows "0 \<le> py_mod a m \<and> py_mod a m < m"
proof -
  have am: "a / m * m = a" using assms by simp
  have "of_int \<lfloor>a / m\<rfloor> * m \<le> a / m * m"
    by (rule mult_right_mono) (use assms in simp_all)
  then have lo: "of_int \<lfloor>a / m\<rfloor> * m \<le> a" unfolding am .
  have "a / m < of_int \<lfloor>a / m\<rfloor> + 1" by linarith
  then have "a / m * m < (of_int \<lfloor>a / m\<rfloor> + 1) * m"
    by (rule mult_strict_right_mono) (rule assms)
  then have hi: "a < (of_int \<lfloor>a / m\<rfloor> + 1) * m" unfolding am .
  from lo hi show ?thesis by (simp add: py_mod_def algebra_simps)
qed

lemma azimuth_range: "- 180 \<le> azimuth x y \<and> azimuth x y < 180"
  using py_mod_range[of 360 "arctan2 y x * 180 / pi"] by (simp add: azimuth_def)

lemma azimuth_minus_x: "x < 0 \<Longrightarrow> azimuth x 0 = 0"
  by (simp add: azimuth_def arctan2_def py_mod_def)

lemma azimuth_plus_x: "0 < x \<Longrightarrow> azimuth x 0 = - 180"
  by (simp add: azimuth_def arctan2_def py_mod_def)

text \<open>
  Claim C7 against the code. With the parameters \<open>(0.1, 0, 0)\<close> the normal vector is
  \<open>(-0.1, 0, 1)\<close>, which points in the -x direction, and \<open>PlaneFit.__init__\<close> stores the
  azimuth 0, not 180; for a normal in the +x direction it is -180. The stored azimuth lies
  in the interval from -180, included, to 180, excluded.
\<close>

theorem azimuth_of_minus_x_normal:
  "map_sum id phi (PlaneFit_init lstsq [(0, 0, 0), (1, 0, 1 / 10), (0, 1, 0)] (Some (1 / 10, 0, 0)))
     = Inr 0 \<and>
   cross3 (sub3 (getvec (1 / 10, 0, 0) 1 0) (getvec (1 / 10, 0, 0) 0 0))
          (sub3 (getvec (1 / 10, 0, 0) 0 1) (getvec (1 / 10, 0, 0) 0 0)) = (- 1 / 10, 0, 1) \<and>
   azimuth (- 1 / 10) 0 = 0 \<and> azimuth (1 / 10) 0 = - 180 \<and>
   - 180 \<le> azimuth x y \<and> azimuth x y < 180"
proof -
  have n: "cross3 (sub3 (getvec (1 / 10, 0, 0) 1 0) (getvec (1 / 10, 0, 0) 0 0))
          (sub3 (getvec (1 / 10, 0, 0) 0 1) (getvec (1 / 10, 0, 0) 0 0)) = (- 1 / 10, 0, 1)"
    by (simp add: cross3_def sub3_def getvec_def getz_def dot3_def)
  have a: "azimuth (- 1 / 10) 0 = 0" by (rule azimuth_minus_x) simp
  have b: "azimuth (1 / 10) 0 = - 180" by (rule azimuth_plus_x) simp
  have p: "map_sum id phi (PlaneFit_init lstsq [(0, 0, 0), (1, 0, 1 / 10), (0, 1, 0)]
      (Some (1 / 10, 0, 0))) = Inr 0"
    using a by (simp add: PlaneFit_init_def Let_def cross3_def sub3_def getvec_def getz_def dot3_def)
  from n a b p azimuth_range[of x y] show ?thesis by simp
qed

section \<open>The plane fit\<close>

lemma zip_design_target:
  "zip (design_matrix pts) (target pts) = map (\<lambda>p. ((fst p, fst (snd p), 1), snd (snd p))) pts"
  by (induction pts) (simp_all add: design_matrix_def target_def)

lemma dot3_row: "dot3 (x, y, 1) q = getz q x y"
  by (simp add: dot3_def getz_def mult.commute)

lemma residual_sq_samples:
  "residual_sq (design_matrix pts) (target pts) q =
     sum_list (map (\<lambda>p. (getz q (fst p) (fst (snd p)) - snd (snd p))\<^sup>2) pts)"
  by (simp add: residual_sq_def zip_design_target comp_def dot3_row)

lemma residual_sq_nonneg: "0 \<le> residual_sq A b q"
  unfolding residual_sq_def by (rule sum_list_nonneg) auto

lemma residual_sq_zero_iff:
  "(residual_sq (design_matrix pts) (target pts) q = 0) = on_plane q pts"
proof -
  have "(sum_list (map (\<lambda>p. (getz q (fst p) (fst (snd p)) - snd (snd p))\<^sup>2) pts) = 0)
      = (\<forall>x\<in>set (map (\<lambda>p. (getz q (fst p) (fst (snd p)) - snd (snd p))\<^sup>2) pts). x = 0)"
    by (rule sum_list_nonneg_eq_0_iff) auto
  then show ?thesis by (auto simp: residual_sq_samples on_plane_def)
qed

lemma plane_through_three:
  assumes p: "getz u (fst p) (fst (snd p)) = getz v (fst p) (fst (snd p))"
    and q: "getz u (fst q) (fst (snd q)) = getz v (fst q) (fst (snd q))"
    and r: "getz u (fst r) (fst (snd r)) = getz v (fst r) (fst (snd r))"
    and det: "det_xy p q r \<noteq> 0"
  shows "u = v"
proof -
  obtain a b c where u: "u = (a, b, c)" by (cases u) auto
  obtain a' b' c' where v: "v = (a', b', c')" by (cases v) auto
  obtain px py pz where pp: "p = (px, py, pz)" by (cases p) auto
  obtain qx qy qz where qq: "q = (qx, qy, qz)" by (cases q) auto
  obtain rx ry rz where rr: "r = (rx, ry, rz)" by (cases r) auto
  define d1 d2 d3 where "d1 = a - a'" and "d2 = b - b'" and "d3 = c - c'"
  have e1: "d1 * px + d2 * py + d3 = 0"
    using p by (simp add: u v pp getz_def dot3_def d1_def d2_def d3_def algebra_simps)
  have e2: "d1 * qx + d2 * qy + d3 = 0"
    using q by (simp add: u v qq getz_def dot3_def d1_def d2_def d3_def algebra_simps)
  have e3: "d1 * rx + d2 * ry + d3 = 0"
    using r by (simp add: u v rr getz_def dot3_def d1_def d2_def d3_def algebra_simps)
  have D: "(px - rx) * (qy - ry) - (qx - rx) * (py - ry) \<noteq> 0"
    using det by (simp add: det_xy_def pp qq rr)
  have f1: "d1 * (px - rx) + d2 * (py - ry) = 0" using e1 e3 by (simp add: algebra_simps)
  have f2: "d1 * (qx - rx) + d2 * (qy - ry) = 0" using e2 e3 by (simp add: algebra_simps)
  have "d1 * ((px - rx) * (qy - ry) - (qx - rx) * (py - ry))
      = (d1 * (px - rx) + d2 * (py - ry)) * (qy - ry) - (d1 * (qx - rx) + d2 * (qy - ry)) * (py - ry)"
    by (simp add: algebra_simps)
  then have "d1 * ((px - rx) * (qy - ry) - (qx - rx) * (py - ry)) = 0"
    unfolding f1 f2 by simp
  with D have z1: "d1 = 0" by simp
  have "d2 * ((px - rx) * (qy - ry) - (qx - rx) * (py - ry))
      = (d1 * (qx - rx) + d2 * (qy - ry)) * (px - rx) - (d1 * (px - rx) + d2 * (py - ry)) * (qx - rx)"
    by (simp add: algebra_simps)
  then have "d2 * ((px - rx) * (qy - ry) - (qx - rx) * (py - ry)) = 0"
    unfolding f1 f2 by simp
  with D have z2: "d2 = 0" by simp
  from e3 z1 z2 have z3: "d3 = 0" by simp
  from z1 z2 z3 show ?thesis by (simp add: u v d1_def d2_def d3_def)
qed

lemma plane_unique:
  assumes "on_plane u pts" "on_plane v pts" "non_collinear pts"
  shows "u = v"
proof -
  from assms(3) obtain p q r where m: "p \<in> set pts" "q \<in> set pts" "r \<in> set pts"
    and det: "det_xy p q r \<noteq> 0"
    unfolding non_collinear_def by blast
  have "getz u (fst p) (fst (snd p)) = getz v (fst p) (fst (snd p))"
    "getz u (fst q) (fst (snd q)) = getz v (fst q) (fst (snd q))"
    "getz u (fst r) (fst (snd r)) = getz v (fst r) (fst (snd r))"
    using assms(1,2) m unfolding on_plane_def by metis+
  then show ?thesis using det by (rule plane_through_three)
qed

lemma lstsq_recovers_plane:
  assumes "on_plane pl pts" "non_collinear pts"
    and "is_lstsq (design_matrix pts) (target pts) sol"
  shows "sol = pl"
proof -
  have "residual_sq (design_matrix pts) (target pts) pl = 0"
    using assms(1) by (simp add: residual_sq_zero_iff)
  moreover have "residual_sq (design_matrix pts) (target pts) sol
      \<le> residual_sq (design_matrix pts) (target pts) pl"
    using assms(3) unfolding is_lstsq_def by blast
  ultimately have "residual_sq (design_matrix pts) (target pts) sol = 0"
    using residual_sq_nonneg[of "design_matrix pts" "target pts" sol] by linarith
  then have "on_plane sol pts" by (simp add: residual_sq_zero_iff)
  then show ?thesis using assms(1,2) by (rule plane_unique)
qed


lemma length_design_target [simp]:
  "length (design_matrix pts) = length pts" "length (target pts) = length pts"
  by (simp_all add: design_matrix_def target_def)

lemma PlaneFit_init_fields:
  assumes "pts \<noteq> []"
  shows "\<exists>pf. PlaneFit_init lstsq pts arg = Inr pf \<and>
    params pf = (case arg of None \<Rightarrow> lstsq (design_matrix pts) (target pts) | Some given \<Rightarrow> given) \<and>
    dev pf = map (\<lambda>p. getz (params pf) (fst p) (fst (snd p)) - snd (snd p)) pts \<and>
    avg pf = sqrt (sum_list (map (\<lambda>d. d * d) (dev pf))) / of_nat (length pts) \<and>
    phi pf = azimuth (- fst (params pf)) (- fst (snd (params pf)))"
  using assms
  by (simp add: PlaneFit_init_def Let_def zip_design_target comp_def dot3_row
      cross3_def sub3_def getvec_def getz_def dot3_def)

lemma fold_max_zeros: "fold max (map (\<lambda>p. 0 :: real) xs) 0 = 0"
  by (induction xs) simp_all

lemma max_dev_zeros:
  assumes "pts \<noteq> []" and "dev pf = map (\<lambda>p. 0) pts"
  shows "max_dev pf = Inr 0"
proof -
  from assms(1) obtain p rest where "pts = p # rest" by (cases pts) auto
  then show ?thesis using assms(2) by (simp add: max_dev_def comp_def fold_max_zeros)
qed

text \<open>
  Claim C6, in exact arithmetic. For samples that lie exactly on the plane
  \<open>z = sx * x + sy * y + z0\<close>, three of them not on one line, and a solver whose answer on
  their design matrix is a least-squares solution, the fit returns the parameters
  \<open>(sx, sy, z0)\<close>, \<open>getz\<close> gives back the height of every sample, and the mean and the
  maximal deviation are 0.
\<close>

theorem plane_fit_round_trip:
  assumes "on_plane pl pts" and "non_collinear pts"
    and "is_lstsq (design_matrix pts) (target pts) (lstsq (design_matrix pts) (target pts))"
  shows "\<exists>pf. PlaneFit_init lstsq pts None = Inr pf \<and> params pf = pl \<and>
    (\<forall>p\<in>set pts. getz (params pf) (fst p) (fst (snd p)) = snd (snd p)) \<and>
    avg pf = 0 \<and> max_dev pf = Inr 0"
proof -
  from assms(2) have ne: "pts \<noteq> []" by (auto simp: non_collinear_def)
  from PlaneFit_init_fields[OF ne, of lstsq None] obtain pf where
    pf: "PlaneFit_init lstsq pts None = Inr pf"
      "params pf = lstsq (design_matrix pts) (target pts)"
      "dev pf = map (\<lambda>p. getz (params pf) (fst p) (fst (snd p)) - snd (snd p)) pts"
      "avg pf = sqrt (sum_list (map (\<lambda>d. d * d) (dev pf))) / of_nat (length pts)"
    by auto
  have par: "params pf = pl"
    unfolding pf(2) using assms by (rule lstsq_recovers_plane)
  have hts: "\<forall>p\<in>set pts. getz (params pf) (fst p) (fst (snd p)) = snd (snd p)"
    using assms(1) unfolding par on_plane_def by simp
  then have dz: "dev pf = map (\<lambda>p. 0) pts" unfolding pf(3) by simp
  have av: "avg pf = 0" unfolding pf(4) dz by (simp add: comp_def)
  have mx: "max_dev pf = Inr 0" using ne dz by (rule max_dev_zeros)
  from pf(1) par hts av mx show ?thesis by blast
qed

lemma sample_plane_is_lstsq:
  "is_lstsq (design_matrix [(0, 0, 10), (1, 0, 101 / 10), (0, 1, 199 / 20), (2, 2, 101 / 10)])
     (target [(0, 0, 10), (1, 0, 101 / 10), (0, 1, 199 / 20), (2, 2, 101 / 10)])
     (1 / 10, - 1 / 20, 10)"
proof -
  let ?pts = "[(0, 0, 10), (1, 0, 101 / 10), (0, 1, 199 / 20), (2, 2, 101 / 10)] :: vec3 list"
  have op: "on_plane (1 / 10, - 1 / 20, 10) ?pts"
    by (simp add: on_plane_def getz_def dot3_def)
  have nc: "non_collinear ?pts"
    unfolding non_collinear_def
    by (rule bexI[of _ "(1, 0, 101 / 10)"], rule bexI[of _ "(0, 1, 199 / 20)"],
        rule bexI[of _ "(0, 0, 10)"]) (simp_all add: det_xy_def)
  have z: "residual_sq (design_matrix ?pts) (target ?pts) (1 / 10, - 1 / 20, 10) = 0"
    using op by (simp only: residual_sq_zero_iff)
  show ?thesis unfolding is_lstsq_def
  proof (intro conjI allI impI)
    fix q
    show "residual_sq (design_matrix ?pts) (target ?pts) (1 / 10, - 1 / 20, 10)
        \<le> residual_sq (design_matrix ?pts) (target ?pts) q"
      unfolding z by (rule residual_sq_nonneg)
  next
    fix q
    assume "residual_sq (design_matrix ?pts) (target ?pts) q
        = residual_sq (design_matrix ?pts) (target ?pts) (1 / 10, - 1 / 20, 10)"
    then have "on_plane q ?pts" unfolding z by (simp only: residual_sq_zero_iff)
    then have "q = (1 / 10, - 1 / 20, 10)" using op nc by (rule plane_unique)
    then show "dot3 (1 / 10, - 1 / 20, 10) (1 / 10, - 1 / 20, 10) \<le> dot3 q q" by simp
  qed
qed

text \<open>
  Claim C6 at four samples of the plane with slopes 0.1 and -0.05 and offset 10, which is
  the least-squares solution for them.
\<close>

theorem plane_fit_round_trip_witness:
  "\<exists>pf. PlaneFit_init (solver_returning (1 / 10, - 1 / 20, 10))
       [(0, 0, 10), (1, 0, 101 / 10), (0, 1, 199 / 20), (2, 2, 101 / 10)] None = Inr pf \<and>
     params pf = (1 / 10, - 1 / 20, 10) \<and>
     getz (params pf) 0 0 = 10 \<and> getz (params pf) 1 0 = 101 / 10 \<and>
     getz (params pf) 0 1 = 199 / 20 \<and> getz (params pf) 2 2 = 101 / 10 \<and>
     avg pf = 0 \<and> max_dev pf = Inr 0"
proof -
  let ?pts = "[(0, 0, 10), (1, 0, 101 / 10), (0, 1, 199 / 20), (2, 2, 101 / 10)] :: vec3 list"
  have op: "on_plane (1 / 10, - 1 / 20, 10) ?pts"
    by (simp add: on_plane_def getz_def dot3_def)
  have nc: "non_collinear ?pts"
    unfolding non_collinear_def
    by (rule bexI[of _ "(1, 0, 101 / 10)"], rule bexI[of _ "(0, 1, 199 / 20)"],
        rule bexI[of _ "(0, 0, 10)"]) (simp_all add: det_xy_def)
  have ls: "is_lstsq (design_matrix ?pts) (target ?pts)
      (solver_returning (1 / 10, - 1 / 20, 10) (design_matrix ?pts) (target ?pts))"
    unfolding solver_returning_def by (rule sample_plane_is_lstsq)
  from plane_fit_round_trip[where lstsq = "solver_returning (1 / 10, - 1 / 20, 10)", OF op nc ls]
  show ?thesis by auto
qed


lemma two_samples_collinear: "\<not> non_collinear [(0, 0, 1), (1, 0, 2)]"
  by (simp add: non_collinear_def det_xy_def)

lemma two_samples_is_lstsq:
  "is_lstsq (design_matrix [(0, 0, 1), (1, 0, 2)]) (target [(0, 0, 1), (1, 0, 2)]) (1, 0, 1)"
proof -
  let ?pts = "[(0, 0, 1), (1, 0, 2)] :: vec3 list"
  have op: "on_plane (1, 0, 1) ?pts"
    by (simp add: on_plane_def getz_def dot3_def)
  have z: "residual_sq (design_matrix ?pts) (target ?pts) (1, 0, 1) = 0"
    using op by (simp only: residual_sq_zero_iff)
  show ?thesis unfolding is_lstsq_def
  proof (intro conjI allI impI)
    fix q
    show "residual_sq (design_matrix ?pts) (target ?pts) (1, 0, 1)
        \<le> residual_sq (design_matrix ?pts) (target ?pts) q"
      unfolding z by (rule residual_sq_nonneg)
  next
    fix q :: vec3
    obtain a b c where q: "q = (a, b, c)" by (cases q) auto
    assume "residual_sq (design_matrix ?pts) (target ?pts) q
        = residual_sq (design_matrix ?pts) (target ?pts) (1, 0, 1)"
    then have "on_plane q ?pts" unfolding z by (simp only: residual_sq_zero_iff)
    then have "c = 1" "a + c = 2" by (simp_all add: on_plane_def getz_def dot3_def q)
    then have "a = 1" by simp
    have "0 \<le> b * b" by simp
    then show "dot3 (1, 0, 1) (1, 0, 1) \<le> dot3 q q"
      using \<open>a = 1\<close> \<open>c = 1\<close> by (simp add: dot3_def q)
  qed
qed

text \<open>
  Claim C8, as the code has it. For samples of which no three are off a line, the fit fails
  only on the empty list, with the index error of \<open>A[:,-1]\<close>; on every other such list it
  returns a plane, with the parameters that the solver answered and the deviations from
  them.
\<close>

theorem degenerate_fit_returns:
  assumes "\<not> non_collinear pts"
  shows "(pts = [] \<longrightarrow> PlaneFit_init lstsq pts arg = Inl IndexError) \<and>
    (pts \<noteq> [] \<longrightarrow>
      (\<exists>pf. PlaneFit_init lstsq pts None = Inr pf \<and>
        params pf = lstsq (design_matrix pts) (target pts) \<and>
        dev pf = map (\<lambda>p. getz (params pf) (fst p) (fst (snd p)) - snd (snd p)) pts))"
proof (intro conjI impI)
  assume "pts = []"
  then show "PlaneFit_init lstsq pts arg = Inl IndexError" by (simp add: PlaneFit_init_def)
next
  assume "pts \<noteq> []"
  from PlaneFit_init_fields[OF this, of lstsq None]
  show "\<exists>pf. PlaneFit_init lstsq pts None = Inr pf \<and>
        params pf = lstsq (design_matrix pts) (target pts) \<and>
        dev pf = map (\<lambda>p. getz (params pf) (fst p) (fst (snd p)) - snd (snd p)) pts"
    by auto
qed

text \<open>
  Claim C8 at the empty list and at two samples, for which \<open>(1, 0, 1)\<close> is the
  least-squares solution of least norm.
\<close>

theorem degenerate_fit_returns_witness:
  "PlaneFit_init (solver_returning (1, 0, 1)) [] None = Inl IndexError \<and>
   (\<exists>pf. PlaneFit_init (solver_returning (1, 0, 1)) [(0, 0, 1), (1, 0, 2)] None = Inr pf \<and>
      params pf = (1, 0, 1) \<and> dev pf = [0, 0])"
proof -
  have e: "\<not> non_collinear []" by (simp add: non_collinear_def)
  from degenerate_fit_returns[OF e, where lstsq = "solver_returning (1, 0, 1)" and arg = None]
  have a: "PlaneFit_init (solver_returning (1, 0, 1)) [] None = Inl IndexError" by simp
  from degenerate_fit_returns[OF two_samples_collinear,
      where lstsq = "solver_returning (1, 0, 1)" and arg = None]
  have b: "\<exists>pf. PlaneFit_init (solver_returning (1, 0, 1)) [(0, 0, 1), (1, 0, 2)] None = Inr pf \<and>
      params pf = (1, 0, 1) \<and> dev pf = [0, 0]"
    by (auto simp: solver_returning_def getz_def dot3_def)
  from a b show ?thesis by simp
qed

text \<open>
  Claim C8 as stated fails on two samples: they determine no plane, their least-squares
  solution of least norm is \<open>(1, 0, 1)\<close>, and the fit returns it as the parameters of a
  plane.
\<close>

theorem degenerate_fit_counterexample:
  "\<not> non_collinear [(0, 0, 1), (1, 0, 2)] \<and>
   is_lstsq (design_matrix [(0, 0, 1), (1, 0, 2)]) (target [(0, 0, 1), (1, 0, 2)]) (1, 0, 1) \<and>
   map_sum id params (PlaneFit_init (solver_returning (1, 0, 1)) [(0, 0, 1), (1, 0, 2)] None)
     = Inr (1, 0, 1)"
proof -
  have "map_sum id params (PlaneFit_init (solver_returning (1, 0, 1)) [(0, 0, 1), (1, 0, 2)] None)
     = Inr (1, 0, 1)"
    by (simp add: PlaneFit_init_def Let_def solver_returning_def)
  with two_samples_collinear two_samples_is_lstsq show ?thesis by simp
qed

end
